theory Spec2Isabelle
  imports Main
begin

section \<open>Strings\<close>

text \<open>
  A string of the program is a \<^typ>\<open>string\<close>: the list of the bytes of its UTF-8
  encoding. The operations of the JavaScript string library that the service uses are
  written out below on that representation.
\<close>

definition is_digit :: "char \<Rightarrow> bool" where
  "is_digit c = (c \<in> set ''0123456789'')"

text \<open>The regular expression \<^verbatim>\<open>/^\d+$/\<close>, as \<^verbatim>\<open>.test(s)\<close>: one or more digits and nothing else.\<close>

definition test_digits :: "string \<Rightarrow> bool" where
  "test_digits s = (s \<noteq> [] \<and> list_all is_digit s)"

text \<open>\<^verbatim>\<open>s.startsWith(p)\<close> and \<^verbatim>\<open>s.includes(p)\<close>.\<close>

definition startsWith :: "string \<Rightarrow> string \<Rightarrow> bool" where
  "startsWith s p = (take (length p) s = p)"

fun includes_str :: "string \<Rightarrow> string \<Rightarrow> bool" where
  "includes_str [] p = (p = [])"
| "includes_str (c # cs) p = (startsWith (c # cs) p \<or> includes_str cs p)"

text \<open>
  \<^verbatim>\<open>s.trim()\<close> removes the white space and line terminators of ECMAScript from both
  ends. In UTF-8 these code points are the byte sequences of \<open>white_space\<close>: U+0009 to
  U+000D, U+0020, U+00A0, U+1680, U+2000 to U+200A, U+2028, U+2029, U+202F, U+205F,
  U+3000 and U+FEFF.
\<close>

definition white_space :: "string list" where
  "white_space =
     [[CHR 0x09], [CHR 0x0A], [CHR 0x0B], [CHR 0x0C], [CHR 0x0D], [CHR 0x20],
      [CHR 0xC2, CHR 0xA0],
      [CHR 0xE1, CHR 0x9A, CHR 0x80],
      [CHR 0xE2, CHR 0x80, CHR 0x80], [CHR 0xE2, CHR 0x80, CHR 0x81],
      [CHR 0xE2, CHR 0x80, CHR 0x82], [CHR 0xE2, CHR 0x80, CHR 0x83],
      [CHR 0xE2, CHR 0x80, CHR 0x84], [CHR 0xE2, CHR 0x80, CHR 0x85],
      [CHR 0xE2, CHR 0x80, CHR 0x86], [CHR 0xE2, CHR 0x80, CHR 0x87],
      [CHR 0xE2, CHR 0x80, CHR 0x88], [CHR 0xE2, CHR 0x80, CHR 0x89],
      [CHR 0xE2, CHR 0x80, CHR 0x8A],
      [CHR 0xE2, CHR 0x80, CHR 0xA8], [CHR 0xE2, CHR 0x80, CHR 0xA9],
      [CHR 0xE2, CHR 0x80, CHR 0xAF],
      [CHR 0xE2, CHR 0x81, CHR 0x9F],
      [CHR 0xE3, CHR 0x80, CHR 0x80],
      [CHR 0xEF, CHR 0xBB, CHR 0xBF]]"

text \<open>The length of the white-space code point that \<open>s\<close> begins with, 0 when there is none.\<close>

definition leading_space :: "string \<Rightarrow> nat" where
  "leading_space s =
     (case filter (startsWith s) white_space of [] \<Rightarrow> 0 | w # _ \<Rightarrow> length w)"

text \<open>The same at the end of \<open>s\<close>.\<close>

definition trailing_space :: "string \<Rightarrow> nat" where
  "trailing_space s =
     (case filter (\<lambda>w. startsWith (rev s) (rev w)) white_space of
        [] \<Rightarrow> 0 | w # _ \<Rightarrow> length w)"

function trimStart :: "string \<Rightarrow> string" where
  "trimStart s =
     (if s \<noteq> [] \<and> 0 < leading_space s then trimStart (drop (leading_space s) s) else s)"
  by pat_completeness auto
termination
  by (relation "measure length") auto

function trimEnd :: "string \<Rightarrow> string" where
  "trimEnd s =
     (if s \<noteq> [] \<and> 0 < trailing_space s
      then trimEnd (take (length s - trailing_space s) s) else s)"
  by pat_completeness auto
termination
  by (relation "measure length") auto

definition trim :: "string \<Rightarrow> string" where
  "trim s = trimEnd (trimStart s)"

text \<open>\<^verbatim>\<open>s.split(sep)\<close> for a one-character separator: the empty string gives one empty piece.\<close>

fun split_on :: "char \<Rightarrow> string \<Rightarrow> string list" where
  "split_on sep [] = [[]]"
| "split_on sep (c # cs) =
     (if c = sep then [] # split_on sep cs
      else (case split_on sep cs of [] \<Rightarrow> [[c]] | w # ws \<Rightarrow> (c # w) # ws))"

text \<open>\<^verbatim>\<open>s.replace(/\n/g, r)\<close>: every line feed of \<open>s\<close> becomes \<open>r\<close>.\<close>

definition replace_newlines :: "string \<Rightarrow> string \<Rightarrow> string" where
  "replace_newlines r s = concat (map (\<lambda>c. if c = CHR 0x0A then r else [c]) s)"

text \<open>A number inside a template literal: its decimal digits.\<close>

fun digit_char :: "nat \<Rightarrow> char" where
  "digit_char n = ''0123456789'' ! (n mod 10)"

function string_of_nat :: "nat \<Rightarrow> string" where
  "string_of_nat n = (if n < 10 then [digit_char n] else string_of_nat (n div 10) @ [digit_char n])"
  by pat_completeness auto
termination
  by (relation "measure id") auto

declare trimStart.simps [simp del] trimEnd.simps [simp del] string_of_nat.simps [simp del]

section \<open>The identifier resolver\<close>

text \<open>
  \<^verbatim>\<open>new URL(s)\<close> belongs to the platform, not to the repository: it is a parameter
  \<open>newURL\<close> of the model, \<open>None\<close> when the constructor throws. Of the URL object the
  resolver reads \<^verbatim>\<open>hostname\<close> and \<^verbatim>\<open>pathname\<close>.
\<close>

record URL =
  hostname :: string
  pathname :: string

text \<open>
  The fallback \<^verbatim>\<open>/asana\.com\/0\/[^\/]+\/(\d+)/\<close>. \<open>match_here\<close> is the pattern anchored at
  the start of \<open>s\<close> and returns capture group 1: after the literal, \<^verbatim>\<open>[^\/]+\<close> takes the
  characters up to the next slash (a shorter choice would leave a character other than
  a slash where the slash has to be), and \<^verbatim>\<open>(\d+)\<close> takes every digit that follows.
  \<open>match_fallback\<close> is \<^verbatim>\<open>cleanUrl.match(...)\<close>: the leftmost position where the pattern
  matches.
\<close>

definition match_here :: "string \<Rightarrow> string option" where
  "match_here s =
     (if startsWith s ''asana.com/0/'' then
        (let r = drop (length ''asana.com/0/'') s;
             ctx = takeWhile (\<lambda>c. c \<noteq> CHR ''/'') r;
             r' = dropWhile (\<lambda>c. c \<noteq> CHR ''/'') r;
             digits = takeWhile is_digit (drop 1 r')
         in if ctx \<noteq> [] \<and> startsWith r' ''/'' \<and> digits \<noteq> [] then Some digits else None)
      else None)"

fun match_fallback :: "string \<Rightarrow> string option" where
  "match_fallback [] = match_here []"
| "match_fallback (c # cs) =
     (case match_here (c # cs) of Some m \<Rightarrow> Some m | None \<Rightarrow> match_fallback cs)"

definition extractTaskGid :: "(string \<Rightarrow> URL option) \<Rightarrow> string \<Rightarrow> string option" where
  "extractTaskGid newURL url =
     (if url = [] then None
      else
        let cleanUrl = trim url in
        if test_digits cleanUrl then Some cleanUrl
        else
          let urlStr = (if startsWith cleanUrl ''http'' then cleanUrl else ''https://'' @ cleanUrl);
              fallback = (case match_fallback cleanUrl of Some m \<Rightarrow> Some m | None \<Rightarrow> None)
          in case newURL urlStr of
               None \<Rightarrow> fallback
             | Some urlObj \<Rightarrow>
                 if \<not> includes_str (hostname urlObj) ''asana.com'' then None
                 else
                   let segments = filter (\<lambda>seg. seg \<noteq> []) (split_on (CHR ''/'') (pathname urlObj));
                       numericSegments = filter test_digits segments
                   in if 0 < length numericSegments
                      then Some (numericSegments ! (length numericSegments - 1))
                      else fallback)"

section \<open>Data model\<close>

text \<open>
  The interfaces of \<^verbatim>\<open>types.ts\<close>. Field names that Isabelle reserves carry the name of
  their interface (\<open>task_notes\<close> for \<^verbatim>\<open>notes\<close>, \<open>story_text\<close> for \<^verbatim>\<open>text\<close>), and so do the
  fields that two interfaces share. \<open>created_by\<close> is optional because the renderer tests
  it before reading the author's name. An \<open>EnrichedTask\<close> is the object
  \<^verbatim>\<open>{...task, stories, subtasks}\<close>: the fields of the task, then the two sequences.
\<close>

record AsanaUser =
  user_gid :: string
  user_name :: string

record AsanaStory =
  story_gid :: string
  created_at :: string
  created_by :: "AsanaUser option"
  resource_subtype :: string
  story_text :: string
  story_type :: string

record AsanaTask =
  gid :: string
  name :: string
  task_notes :: string
  assignee :: "AsanaUser option"
  due_on :: "string option"
  completed :: bool
  permalink_url :: string
  projects :: "(string \<times> string) list option"

datatype EnrichedTask =
  EnrichedTask (task_fields: AsanaTask) (stories: "AsanaStory list") (subtasks: "EnrichedTask list")

datatype LogType = Info | Success | Error

section \<open>The remote resource client\<close>

text \<open>
  A thrown value is an error object with a name and a message; \<open>error_toString\<close> is what
  a template literal makes of it (\<^verbatim>\<open>Error.prototype.toString\<close>).
\<close>

datatype JsError = JsError (error_name: string) (message: string)

definition error_toString :: "JsError \<Rightarrow> string" where
  "error_toString e =
     (if error_name e = [] then message e
      else if message e = [] then error_name e
      else error_name e @ '': '' @ message e)"

text \<open>
  The platform's \<^verbatim>\<open>fetch\<close> is a parameter. A call takes the URL and the headers, changes
  the state \<open>'w\<close> of the world (the remote service, the network) and is rejected or
  resolves with a response. Of a response the client reads the status, the status text
  and \<^verbatim>\<open>(await response.json()).data\<close>, which is \<open>json_data\<close>: a rejection of
  \<^verbatim>\<open>json()\<close>, or the data at the type \<^verbatim>\<open>T\<close> that \<^verbatim>\<open>fetchAsana<T>\<close> declares. \<^verbatim>\<open>response.ok\<close>
  is a status from 200 to 299.
\<close>

record 'a Response =
  status :: nat
  statusText :: string
  json_data :: "JsError + 'a"

definition ok :: "'a Response \<Rightarrow> bool" where
  "ok response = (200 \<le> status response \<and> status response \<le> 299)"

datatype 'a Fetched = Rejected JsError | Resolved "'a Response"

type_synonym ('w, 'a) fetch =
  "string \<Rightarrow> (string \<times> string) list \<Rightarrow> 'w \<Rightarrow> 'a Fetched \<times> 'w"

text \<open>\<^verbatim>\<open>fetch\<close> at the three types at which the engine reads the service.\<close>

record 'w Network =
  fetch_task :: "('w, AsanaTask) fetch"
  fetch_stories :: "('w, AsanaStory list) fetch"
  fetch_subtasks :: "('w, AsanaTask list) fetch"

definition ASANA_API_BASE :: string where
  "ASANA_API_BASE = ''https://app.asana.com/api/1.0''"

definition fetchAsana :: "('w, 'a) fetch \<Rightarrow> string \<Rightarrow> string \<Rightarrow> 'w \<Rightarrow> (JsError + 'a) \<times> 'w" where
  "fetchAsana fetch path token w =
     (let headers = [(''Authorization'', ''Bearer '' @ token), (''Accept'', ''application/json'')]
      in case fetch (ASANA_API_BASE @ path) headers w of
           (Rejected e, w') \<Rightarrow> (Inl e, w')
         | (Resolved response, w') \<Rightarrow>
             if \<not> ok response then
               (if status response = 401
                then (Inl (JsError ''Error'' ''Unauthorized: Invalid Personal Access Token.''), w')
                else if status response = 404
                then (Inl (JsError ''Error''
                       (''Not Found: Resource at '' @ path @ '' does not exist or you lack access.'')), w')
                else if status response = 429
                then (Inl (JsError ''Error'' ''Rate Limit Exceeded: Please wait a moment and try again.''), w')
                else (Inl (JsError ''Error''
                       (''Asana API Error: '' @ string_of_nat (status response) @ '' '' @
                        statusText response)), w'))
             else (json_data response, w'))"

section \<open>The tree ingestion engine\<close>

text \<open>
  The log sink is the callback \<^verbatim>\<open>log(msg, type)\<close>: it returns nothing and changes the
  state \<open>'l\<close> of its owner. A call of \<open>processTask\<close> ends with a thrown error (\<open>Inl\<close>) or
  with the tree (\<open>Inr\<close>), in the state of the world and of the sink that it leaves.

  The service decides how deep the tree is, so the recursion need not end. The first
  argument of \<open>processTask\<close> bounds the nesting of calls, and \<open>None\<close> says that the bound
  was reached before the call returned.
\<close>

type_synonym 'l logger = "string \<Rightarrow> LogType \<Rightarrow> 'l \<Rightarrow> 'l"

type_synonym ('w, 'l) ingest = "((JsError + EnrichedTask) \<times> 'w \<times> 'l) option"

text \<open>
  The loop \<^verbatim>\<open>for (const sub of subtaskList)\<close> with its \<^verbatim>\<open>try\<close>/\<^verbatim>\<open>catch\<close>; \<open>recurse\<close> is the
  recursive call at \<^verbatim>\<open>depth + 1\<close> and \<open>n_subtasks\<close> is \<^verbatim>\<open>subtaskList.length\<close>.
\<close>

fun for_subtasks ::
  "(string \<Rightarrow> 'w \<Rightarrow> 'l \<Rightarrow> ('w, 'l) ingest) \<Rightarrow> 'l logger \<Rightarrow> nat \<Rightarrow> nat \<Rightarrow>
   AsanaTask list \<Rightarrow> nat \<Rightarrow> EnrichedTask list \<Rightarrow> 'w \<Rightarrow> 'l \<Rightarrow>
   (EnrichedTask list \<times> 'w \<times> 'l) option" where
  "for_subtasks recurse log depth n_subtasks [] completedCount enrichedSubtasks w l =
     Some (enrichedSubtasks, w, l)"
| "for_subtasks recurse log depth n_subtasks (sub # rest) completedCount enrichedSubtasks w l =
     (let completedCount = completedCount + 1;
          l1 = (if depth = 0
                then log (''Processing subtask '' @ string_of_nat completedCount @ ''/'' @
                          string_of_nat n_subtasks @ '': \"'' @ name sub @ ''\"'') Info l
                else l)
      in case recurse (gid sub) w l1 of
           None \<Rightarrow> None
         | Some (Inr fullSubtask, w', l') \<Rightarrow>
             for_subtasks recurse log depth n_subtasks rest completedCount
               (enrichedSubtasks @ [fullSubtask]) w' l'
         | Some (Inl error, w', l') \<Rightarrow>
             for_subtasks recurse log depth n_subtasks rest completedCount enrichedSubtasks w'
               (log (concat (replicate depth ''  '') @ ''Failed to fetch subtask '' @ gid sub @
                     '': '' @ error_toString error) Error l'))"

primrec processTask ::
  "nat \<Rightarrow> 'w Network \<Rightarrow> string \<Rightarrow> string \<Rightarrow> 'l logger \<Rightarrow> nat \<Rightarrow> 'w \<Rightarrow> 'l \<Rightarrow> ('w, 'l) ingest" where
  "processTask 0 net taskGid token log depth w l = None"
| "processTask (Suc k) net taskGid token log depth w l =
     (let l1 = (if depth = 0
                then log (''Fetching main task details ('' @ taskGid @ '')...'') Info l else l);
          taskFields = ''name,notes,assignee.name,due_on,completed,permalink_url''
      in case fetchAsana (fetch_task net)
                (''/tasks/'' @ taskGid @ ''?opt_fields='' @ taskFields) token w of
           (Inl e, w1) \<Rightarrow> Some (Inl e, w1, l1)
         | (Inr task, w1) \<Rightarrow>
             (case fetchAsana (fetch_stories net)
                     (''/tasks/'' @ taskGid @
                      ''/stories?opt_fields=text,created_at,created_by.name,resource_subtype&limit=100'')
                     token w1 of
                (Inl e, w2) \<Rightarrow> Some (Inl e, w2, l1)
              | (Inr allStories, w2) \<Rightarrow>
                  (let comments = filter (\<lambda>s. resource_subtype s = ''comment_added'') allStories
                   in case fetchAsana (fetch_subtasks net)
                             (''/tasks/'' @ taskGid @ ''/subtasks?opt_fields=gid,name'') token w2 of
                        (Inl e, w3) \<Rightarrow> Some (Inl e, w3, l1)
                      | (Inr subtaskList, w3) \<Rightarrow>
                          if 0 < length subtaskList then
                            (let l2 = (if depth = 0
                                       then log (''Found '' @ string_of_nat (length subtaskList) @
                                                 '' subtasks. Processing...'') Info l1
                                       else l1)
                             in case for_subtasks
                                       (\<lambda>g. processTask k net g token log (depth + 1))
                                       log depth (length subtaskList) subtaskList 0 [] w3 l2 of
                                  None \<Rightarrow> None
                                | Some (enrichedSubtasks, w4, l3) \<Rightarrow>
                                    Some (Inr (EnrichedTask task comments enrichedSubtasks), w4, l3))
                          else Some (Inr (EnrichedTask task comments []), w3, l1))))"

section \<open>The document renderer\<close>

text \<open>
  The two date formats belong to the platform and its locale; they are parameters:
  \<open>toLocaleDateString\<close> is \<^verbatim>\<open>new Date(s).toLocaleDateString('en-US', ...)\<close> and
  \<open>toLocaleString\<close> is \<^verbatim>\<open>new Date(s).toLocaleString()\<close>.
\<close>

record Locale =
  toLocaleDateString :: "string \<Rightarrow> string"
  toLocaleString :: "string \<Rightarrow> string"

definition formatDate :: "Locale \<Rightarrow> string option \<Rightarrow> string" where
  "formatDate L dateStr =
     (case dateStr of
        None \<Rightarrow> ''No Date''
      | Some s \<Rightarrow> if s = [] then ''No Date'' else toLocaleDateString L s)"

text \<open>
  The three glyph literals, with the bytes they have in the source file. (There they are
  the UTF-8 encodings of U+2705, U+2B55 and U+1F5E3 U+FE0F, read as Windows-1252 and
  encoded again.)
\<close>

definition glyph_completed :: string where
  "glyph_completed = [CHR 0xC3, CHR 0xA2, CHR 0xC5, CHR 0x93, CHR 0xE2, CHR 0x80, CHR 0xA6]"

definition glyph_incomplete :: string where
  "glyph_incomplete = [CHR 0xC3, CHR 0xA2, CHR 0xC2, CHR 0xAD, CHR 0xE2, CHR 0x80, CHR 0xA2]"

definition glyph_speaking :: string where
  "glyph_speaking =
     [CHR 0xC3, CHR 0xB0, CHR 0xC5, CHR 0xB8, CHR 0xE2, CHR 0x80, CHR 0x94, CHR 0xC2, CHR 0xA3,
      CHR 0xC3, CHR 0xAF, CHR 0xC2, CHR 0xB8]"

text \<open>
  The closure \<open>renderSubtasks\<close> appends to the variable \<^verbatim>\<open>md\<close> of \<open>generateMarkdown\<close>:
  the model takes \<open>md\<close> and returns it extended. \<open>renderSubtasks L subtasks level index md\<close>
  is \<^verbatim>\<open>subtasks.forEach\<close> from position \<open>index\<close> on, and \<open>renderSubtask\<close> is the function
  that \<^verbatim>\<open>forEach\<close> calls with a subtask and its position.
\<close>

fun renderSubtasks :: "Locale \<Rightarrow> EnrichedTask list \<Rightarrow> nat \<Rightarrow> nat \<Rightarrow> string \<Rightarrow> string"
  and renderSubtask :: "Locale \<Rightarrow> EnrichedTask \<Rightarrow> nat \<Rightarrow> nat \<Rightarrow> string \<Rightarrow> string" where
  "renderSubtasks L [] level index md = md"
| "renderSubtasks L (sub # rest) level index md =
     renderSubtasks L rest level (index + 1) (renderSubtask L sub level index md)"
| "renderSubtask L (EnrichedTask sub sub_stories sub_subtasks) level index md =
     (let headerPrefix = replicate (level + 2) (CHR ''#'');
          statusIcon = (if completed sub then glyph_completed else glyph_incomplete);
          md = md @ headerPrefix @ '' '' @ string_of_nat (index + 1) @ ''. '' @ statusIcon @ '' '' @
               name sub @ ''\<newline>\<newline>'';
          md = md @ ''*Assignee: '' @
               (case assignee sub of
                  None \<Rightarrow> ''Unassigned''
                | Some u \<Rightarrow> if user_name u = [] then ''Unassigned'' else user_name u) @
               '' | Due: '' @ formatDate L (due_on sub) @ ''*\<newline>\<newline>'';
          md = (if task_notes sub \<noteq> []
                then md @ ''> '' @ replace_newlines ''\<newline>> '' (task_notes sub) @ ''\<newline>\<newline>''
                else md);
          md = (if 0 < length sub_stories
                then foldl (\<lambda>md s.
                        let a = (case created_by s of
                                   None \<Rightarrow> ''Unknown''
                                 | Some u \<Rightarrow> if user_name u = [] then ''Unknown'' else user_name u)
                        in md @ ''- **'' @ a @ ''**: '' @ replace_newlines '' '' (story_text s) @
                           ''\<newline>'')
                       (md @ ''**Comments:**\<newline>'') sub_stories @ ''\<newline>''
                else md);
          md = (if 0 < length sub_subtasks
                then renderSubtasks L sub_subtasks (level + 1) 0 md
                else md)
      in md @ ''\<newline>'')"

definition generateMarkdown :: "Locale \<Rightarrow> EnrichedTask \<Rightarrow> string" where
  "generateMarkdown L t =
     (let md = [];
          md = md @ ''# '' @ name (task_fields t) @ ''\<newline>\<newline>'';
          md = md @ ''**Link:** [Open in Asana]('' @ permalink_url (task_fields t) @ '')\<newline>'';
          md = md @ ''**Assignee:** '' @
               (case assignee (task_fields t) of
                  None \<Rightarrow> ''Unassigned''
                | Some u \<Rightarrow> user_name u) @ '' | '';
          md = md @ ''**Due:** '' @ formatDate L (due_on (task_fields t)) @ '' | '';
          md = md @ ''**Status:** '' @
               (if completed (task_fields t) then glyph_completed @ '' Completed''
                else glyph_incomplete @ '' Incomplete'') @ ''\<newline>\<newline>'';
          md = md @ ''## Description\<newline>\<newline>'';
          md = (if task_notes (task_fields t) \<noteq> []
                then md @ task_notes (task_fields t) @ ''\<newline>\<newline>''
                else md @ ''_No description provided._\<newline>\<newline>'');
          md = (if 0 < length (stories t)
                then foldl (\<lambda>md story.
                        let author = (case created_by story of
                                        None \<Rightarrow> ''Unknown''
                                      | Some u \<Rightarrow> user_name u);
                            date = toLocaleString L (created_at story);
                            md = md @ ''### '' @ glyph_speaking @ '' '' @ author @ '' - '' @ date @
                                 ''\<newline>'';
                            md = md @ story_text story @ ''\<newline>\<newline>''
                        in md @ ''---\<newline>\<newline>'')
                       (md @ ''## Comments\<newline>\<newline>'') (stories t)
                else md);
          md = (if 0 < length (subtasks t)
                then renderSubtasks L (subtasks t) 1 0 (md @ ''## Subtasks\<newline>\<newline>'')
                else md)
      in md)"

section \<open>Specification-side definitions and observers\<close>

subsection \<open>The resolver's rules as the specification words them\<close>

text \<open>
  The specification prefixes the default scheme "if no scheme is present". A scheme is
  a letter followed by letters, digits, \<^verbatim>\<open>+\<close>, \<^verbatim>\<open>-\<close> or \<^verbatim>\<open>.\<close> and then a colon.
\<close>

definition is_alpha :: "char \<Rightarrow> bool" where
  "is_alpha c = (c \<in> set ''abcdefghijklmnopqrstuvwxyzABCDEFGHIJKLMNOPQRSTUVWXYZ'')"

definition has_scheme :: "string \<Rightarrow> bool" where
  "has_scheme s =
     (case s of [] \<Rightarrow> False
      | c # cs \<Rightarrow> is_alpha c \<and>
          startsWith (dropWhile (\<lambda>x. is_alpha x \<or> is_digit x \<or> x \<in> set ''+-.'') cs) '':'')"

text \<open>
  The rules in the specification's order, first match wins; \<open>scheme_present\<close> is the
  test that decides whether the default scheme is prefixed. Rule 3 reads "the host
  belongs to the tracker's domain" the way the specification's own test does: the host
  contains the domain. Rules 4 and 5 are the fallback match.
\<close>

definition resolve :: "(string \<Rightarrow> bool) \<Rightarrow> (string \<Rightarrow> URL option) \<Rightarrow> string \<Rightarrow> string option" where
  "resolve scheme_present newURL input =
     (let t = trim input in
      if test_digits t then Some t
      else
        (case newURL (if scheme_present t then t else ''https://'' @ t) of
           None \<Rightarrow> match_fallback t
         | Some u \<Rightarrow>
             if \<not> includes_str (hostname u) ''asana.com'' then None
             else
               (case filter test_digits (filter (\<lambda>seg. seg \<noteq> []) (split_on (CHR ''/'') (pathname u))) of
                  [] \<Rightarrow> match_fallback t
                | n # ns \<Rightarrow> Some (last (n # ns)))))"

text \<open>
  The pattern \<^verbatim>\<open>asana.com/0/<context-segment>/<digits>\<close> matches in \<open>s\<close> at offset \<open>i\<close>
  and captures \<open>d\<close>: the literal, a non-empty segment without a slash, a slash, and the
  run of digits \<open>d\<close>, which no further digit follows.
\<close>

definition pattern_at :: "string \<Rightarrow> nat \<Rightarrow> string \<Rightarrow> bool" where
  "pattern_at s i d =
     (\<exists>ctx rest. i \<le> length s \<and> drop i s = ''asana.com/0/'' @ ctx @ ''/'' @ d @ rest \<and>
        ctx \<noteq> [] \<and> CHR ''/'' \<notin> set ctx \<and> test_digits d \<and> (rest = [] \<or> \<not> is_digit (hd rest)))"

text \<open>
  The results of the platform's \<^verbatim>\<open>new URL\<close> at the strings of the examples. The strings
  \<^verbatim>\<open>httpbin.asana.com/0/1/2/3\<close> (no scheme and no base) and
  \<^verbatim>\<open>https://see asana.com/0/foo/42 now\<close> (a space in the host) make the constructor throw.
\<close>

definition url_table :: "string \<Rightarrow> URL option" where
  "url_table s =
     (if s = ''https://app.asana.com/0/12345/67890''
      then Some \<lparr>hostname = ''app.asana.com'', pathname = ''/0/12345/67890''\<rparr>
      else if s = ''https://app.asana.com/0/12345/67890/f''
      then Some \<lparr>hostname = ''app.asana.com'', pathname = ''/0/12345/67890/f''\<rparr>
      else if s = ''https://httpbin.asana.com/0/1/2/3''
      then Some \<lparr>hostname = ''httpbin.asana.com'', pathname = ''/0/1/2/3''\<rparr>
      else if s = ''https://example.com/0/12345/67890''
      then Some \<lparr>hostname = ''example.com'', pathname = ''/0/12345/67890''\<rparr>
      else None)"

section \<open>Observers of the ingestion engine\<close>

text \<open>What a call of \<open>processTask\<close> leaves apart from the sink: its result and the world.\<close>

definition without_sink :: "('a \<times> 'w \<times> 'l) option \<Rightarrow> ('a \<times> 'w) option" where
  "without_sink r = map_option (\<lambda>(x, w, l). (x, w)) r"

text \<open>The three paths that \<open>processTask\<close> reads for the task \<open>g\<close>.\<close>

definition task_path :: "string \<Rightarrow> string" where
  "task_path g =
     ''/tasks/'' @ g @ ''?opt_fields=name,notes,assignee.name,due_on,completed,permalink_url''"

definition stories_path :: "string \<Rightarrow> string" where
  "stories_path g =
     ''/tasks/'' @ g @
     ''/stories?opt_fields=text,created_at,created_by.name,resource_subtype&limit=100''"

definition subtasks_path :: "string \<Rightarrow> string" where
  "subtasks_path g = ''/tasks/'' @ g @ ''/subtasks?opt_fields=gid,name''"

text \<open>The test of the filter: the subtype of a user comment.\<close>

definition is_comment :: "AsanaStory \<Rightarrow> bool" where
  "is_comment s = (resource_subtype s = ''comment_added'')"

text \<open>
  The messages of \<open>processTask\<close>, each with its guard: the opening message, the number
  of subtasks found, the progress message before the \<open>i\<close>-th recursive call, and the
  text of the message that the \<^verbatim>\<open>catch\<close> block logs.
\<close>

definition log_opening :: "'l logger \<Rightarrow> nat \<Rightarrow> string \<Rightarrow> 'l \<Rightarrow> 'l" where
  "log_opening log depth g l =
     (if depth = 0 then log (''Fetching main task details ('' @ g @ '')...'') Info l else l)"

definition log_found :: "'l logger \<Rightarrow> nat \<Rightarrow> nat \<Rightarrow> 'l \<Rightarrow> 'l" where
  "log_found log depth n l =
     (if depth = 0
      then log (''Found '' @ string_of_nat n @ '' subtasks. Processing...'') Info l else l)"

definition log_progress :: "'l logger \<Rightarrow> nat \<Rightarrow> nat \<Rightarrow> nat \<Rightarrow> AsanaTask \<Rightarrow> 'l \<Rightarrow> 'l" where
  "log_progress log depth i n sub l =
     (if depth = 0
      then log (''Processing subtask '' @ string_of_nat i @ ''/'' @ string_of_nat n @ '': \"'' @
                name sub @ ''\"'') Info l
      else l)"

definition failure_message :: "nat \<Rightarrow> AsanaTask \<Rightarrow> JsError \<Rightarrow> string" where
  "failure_message depth sub e =
     concat (replicate depth ''  '') @ ''Failed to fetch subtask '' @ gid sub @ '': '' @
     error_toString e"

text \<open>The headers that \<open>fetchAsana\<close> sends.\<close>

definition request_headers :: "string \<Rightarrow> (string \<times> string) list" where
  "request_headers token =
     [(''Authorization'', ''Bearer '' @ token), (''Accept'', ''application/json'')]"

text \<open>
  A network that keeps, next to the world, the list of the requests it served: the
  endpoint, the URL and what \<^verbatim>\<open>fetch\<close> answered. It answers as the network it records.
\<close>

datatype Exchange =
    TaskExchange string "AsanaTask Fetched"
  | StoriesExchange string "AsanaStory list Fetched"
  | SubtasksExchange string "AsanaTask list Fetched"

definition recording :: "'w Network \<Rightarrow> ('w \<times> Exchange list) Network" where
  "recording net =
     \<lparr>fetch_task = (\<lambda>url headers (w, tr).
        case fetch_task net url headers w of (r, w') \<Rightarrow> (r, w', tr @ [TaskExchange url r])),
      fetch_stories = (\<lambda>url headers (w, tr).
        case fetch_stories net url headers w of (r, w') \<Rightarrow> (r, w', tr @ [StoriesExchange url r])),
      fetch_subtasks = (\<lambda>url headers (w, tr).
        case fetch_subtasks net url headers w of (r, w') \<Rightarrow> (r, w', tr @ [SubtasksExchange url r]))\<rparr>"

text \<open>A sink that keeps the entries it is given, in the order of the calls.\<close>

definition record_log :: "(string \<times> LogType) list logger" where
  "record_log msg ty l = l @ [(msg, ty)]"

subsection \<open>A small service\<close>

text \<open>
  The world counts the requests served. Tasks 1, 11, 13, 14 and 15 exist and every other
  task answers 404; task 1 lists the subtasks 11, 12 and 13; the activity entries of
  task 14 answer 429 and the subtask listing of task 15 is rejected by the network;
  every other task has three activity entries, the second of them not a comment.
\<close>

definition demo_task :: "string \<Rightarrow> AsanaTask" where
  "demo_task g =
     \<lparr>gid = g, name = ''Task '' @ g, task_notes = [], assignee = None, due_on = None,
      completed = False, permalink_url = ''https://app.asana.com/0/0/'' @ g, projects = None\<rparr>"

definition demo_story :: "string \<Rightarrow> string \<Rightarrow> AsanaStory" where
  "demo_story g subtype =
     \<lparr>story_gid = g, created_at = ''2024-01-01T00:00:00.000Z'', created_by = None,
      resource_subtype = subtype, story_text = ''text '' @ g, story_type = ''story''\<rparr>"

definition resolved :: "nat \<Rightarrow> string \<Rightarrow> JsError + 'a \<Rightarrow> 'a Fetched" where
  "resolved code txt d = Resolved \<lparr>status = code, statusText = txt, json_data = d\<rparr>"

definition demo_net :: "nat Network" where
  "demo_net =
     \<lparr>fetch_task = (\<lambda>url headers w.
        (if url \<in> set (map (\<lambda>g. ASANA_API_BASE @ task_path g) [''1'', ''11'', ''13'', ''14'', ''15''])
         then resolved 200 ''OK''
                (Inr (demo_task (takeWhile (\<lambda>c. c \<noteq> CHR ''?'')
                        (drop (length (ASANA_API_BASE @ ''/tasks/'')) url))))
         else resolved 404 ''Not Found'' (Inl (JsError ''SyntaxError'' ''Unexpected end of JSON input'')),
         w + 1)),
      fetch_stories = (\<lambda>url headers w.
        (if url = ASANA_API_BASE @ stories_path ''14''
         then resolved 429 ''Too Many Requests'' (Inr [])
         else resolved 200 ''OK''
                (Inr [demo_story ''91'' ''comment_added'', demo_story ''92'' ''assigned'',
                      demo_story ''93'' ''comment_added'']),
         w + 1)),
      fetch_subtasks = (\<lambda>url headers w.
        (if url = ASANA_API_BASE @ subtasks_path ''15''
         then Rejected (JsError ''TypeError'' ''Failed to fetch'')
         else resolved 200 ''OK''
                (Inr (if url = ASANA_API_BASE @ subtasks_path ''1''
                      then [demo_task ''11'', demo_task ''12'', demo_task ''13''] else [])),
         w + 1))\<rparr>"

subsection \<open>The recursive calls of one loop\<close>

text \<open>
  \<open>observed recurse\<close> is \<open>recurse\<close> keeping, next to the world, the outcome of each call
  and the entries that the call itself appended to the recording sink.
\<close>

type_synonym Entry = "string \<times> LogType"

type_synonym Observation = "(JsError + EnrichedTask) \<times> Entry list"


text \<open>The trees of the calls that succeeded, in the order of the calls.\<close>

fun successes :: "Observation list \<Rightarrow> EnrichedTask list" where
  "successes [] = []"
| "successes ((Inr c, d) # obs) = c # successes obs"
| "successes ((Inl e, d) # obs) = successes obs"


subsection \<open>The nodes of a tree and the reads of a run\<close>

text \<open>The root of a tree and every transitive child, in preorder.\<close>

fun nodes :: "EnrichedTask \<Rightarrow> EnrichedTask list" where
  "nodes (EnrichedTask f s cs) = EnrichedTask f s cs # concat (map nodes cs)"

text \<open>The data of a read that \<open>fetchAsana\<close> returns: the response is ok and its body parses.\<close>

fun delivered :: "'a Fetched \<Rightarrow> 'a option" where
  "delivered (Rejected e) = None"
| "delivered (Resolved r) =
     (if ok r then (case json_data r of Inl e \<Rightarrow> None | Inr d \<Rightarrow> Some d) else None)"

text \<open>
  Of a recorded exchange: the activity entries it delivered, whether it read a task's
  metadata with success, and the URL of a request for activity entries.
\<close>

fun delivered_stories :: "Exchange \<Rightarrow> AsanaStory list option" where
  "delivered_stories (StoriesExchange url x) = delivered x"
| "delivered_stories (TaskExchange url x) = None"
| "delivered_stories (SubtasksExchange url x) = None"

fun task_delivered :: "Exchange \<Rightarrow> bool" where
  "task_delivered (TaskExchange url x) = (delivered x \<noteq> None)"
| "task_delivered (StoriesExchange url x) = False"
| "task_delivered (SubtasksExchange url x) = False"

fun stories_request :: "Exchange \<Rightarrow> string option" where
  "stories_request (StoriesExchange url x) = Some url"
| "stories_request (TaskExchange url x) = None"
| "stories_request (SubtasksExchange url x) = None"

text \<open>
  Every node of \<open>t\<close> has as its comments the comment entries of a list of activity
  entries that the trace delivered.
\<close>

definition backed :: "Exchange list \<Rightarrow> EnrichedTask \<Rightarrow> bool" where
  "backed tr t =
     (\<forall>node\<in>set (nodes t).
        stories node \<in> set (map (filter is_comment) (List.map_filter delivered_stories tr)))"

text \<open>
  A trace has as many requests for activity entries as successful reads of task
  metadata, and each such request is for the stories path of some task.
\<close>

definition counted :: "Exchange list \<Rightarrow> bool" where
  "counted tr =
     (length (List.map_filter stories_request tr) = length (filter task_delivered tr) \<and>
      (\<forall>url\<in>set (List.map_filter stories_request tr). \<exists>g. url = ASANA_API_BASE @ stories_path g))"

text \<open>The run of the engine on task 1 of the small service: the tree, the log, the trace.\<close>

definition demo_comments :: "AsanaStory list" where
  "demo_comments = [demo_story ''91'' ''comment_added'', demo_story ''93'' ''comment_added'']"

definition demo_tree :: EnrichedTask where
  "demo_tree =
     EnrichedTask (demo_task ''1'') demo_comments
       [EnrichedTask (demo_task ''11'') demo_comments [],
        EnrichedTask (demo_task ''13'') demo_comments []]"

definition demo_log :: "Entry list" where
  "demo_log =
     [(''Fetching main task details (1)...'', Info),
      (''Found 3 subtasks. Processing...'', Info),
      (''Processing subtask 1/3: \"Task 11\"'', Info),
      (''Processing subtask 2/3: \"Task 12\"'', Info),
      (''Failed to fetch subtask 12: Error: Not Found: Resource at /tasks/12?opt_fields=name,notes,assignee.name,due_on,completed,permalink_url does not exist or you lack access.'', Error),
      (''Processing subtask 3/3: \"Task 13\"'', Info)]"

definition demo_trace :: "Exchange list" where
  "demo_trace =
     (case processTask 2 (recording demo_net) ''1'' ''token'' record_log 0 (0, []) [] of
        None \<Rightarrow> []
      | Some (x, (w, tr), l) \<Rightarrow> tr)"

section \<open>The parts of the document\<close>

text \<open>
  The parts of the rendered document as the specification lists them: the title and the
  metadata line of the root, the block of one comment of the root, and for a subtask
  its heading (depth \<open>level + 2\<close>, 1-based position, completion glyph, name), the bullet
  of one comment, and the metadata line, quoted description and comment list.
\<close>

definition document_head :: "Locale \<Rightarrow> EnrichedTask \<Rightarrow> string" where
  "document_head L t =
     ''# '' @ name (task_fields t) @ ''\<newline>\<newline>'' @
     ''**Link:** [Open in Asana]('' @ permalink_url (task_fields t) @ '')\<newline>'' @
     ''**Assignee:** '' @
     (case assignee (task_fields t) of None \<Rightarrow> ''Unassigned'' | Some u \<Rightarrow> user_name u) @ '' | '' @
     ''**Due:** '' @ formatDate L (due_on (task_fields t)) @ '' | '' @
     ''**Status:** '' @
     (if completed (task_fields t) then glyph_completed @ '' Completed''
      else glyph_incomplete @ '' Incomplete'') @ ''\<newline>\<newline>''"

definition comment_block :: "Locale \<Rightarrow> AsanaStory \<Rightarrow> string" where
  "comment_block L story =
     ''### '' @ glyph_speaking @ '' '' @
     (case created_by story of None \<Rightarrow> ''Unknown'' | Some u \<Rightarrow> user_name u) @
     '' - '' @ toLocaleString L (created_at story) @ ''\<newline>'' @
     story_text story @ ''\<newline>\<newline>'' @ ''---\<newline>\<newline>''"

definition subtask_heading :: "nat \<Rightarrow> nat \<Rightarrow> EnrichedTask \<Rightarrow> string" where
  "subtask_heading level position sub =
     replicate (level + 2) (CHR ''#'') @ '' '' @ string_of_nat position @ ''. '' @
     (if completed (task_fields sub) then glyph_completed else glyph_incomplete) @ '' '' @
     name (task_fields sub) @ ''\<newline>\<newline>''"

definition comment_bullet :: "AsanaStory \<Rightarrow> string" where
  "comment_bullet s =
     ''- **'' @
     (case created_by s of
        None \<Rightarrow> ''Unknown''
      | Some u \<Rightarrow> if user_name u = [] then ''Unknown'' else user_name u) @
     ''**: '' @ replace_newlines '' '' (story_text s) @ ''\<newline>''"

definition subtask_details :: "Locale \<Rightarrow> EnrichedTask \<Rightarrow> string" where
  "subtask_details L sub =
     ''*Assignee: '' @
     (case assignee (task_fields sub) of
        None \<Rightarrow> ''Unassigned''
      | Some u \<Rightarrow> if user_name u = [] then ''Unassigned'' else user_name u) @
     '' | Due: '' @ formatDate L (due_on (task_fields sub)) @ ''*\<newline>\<newline>'' @
     (if task_notes (task_fields sub) = [] then []
      else ''> '' @ replace_newlines ''\<newline>> '' (task_notes (task_fields sub)) @ ''\<newline>\<newline>'') @
     (if stories sub = [] then []
      else ''**Comments:**\<newline>'' @ concat (map comment_bullet (stories sub)) @ ''\<newline>'')"

text \<open>The heading depth of a line: the number of \<^verbatim>\<open>#\<close> characters it begins with.\<close>

definition heading_depth :: "string \<Rightarrow> nat" where
  "heading_depth line = length (takeWhile (\<lambda>c. c = CHR ''#'') line)"

text \<open>A locale that prints a date as the string it is given, and a nested list of subtasks.\<close>

definition demo_locale :: Locale where
  "demo_locale = \<lparr>toLocaleDateString = (\<lambda>s. s), toLocaleString = (\<lambda>s. s)\<rparr>"

definition demo_nested :: "EnrichedTask list" where
  "demo_nested =
     [EnrichedTask ((demo_task ''11'')\<lparr>completed := True\<rparr>) []
        [EnrichedTask (demo_task ''111'') [] []],
      EnrichedTask (demo_task ''13'') [] []]"

section \<open>Properties of the identifier resolver\<close>

lemma takeWhile_digits_all: "list_all is_digit (takeWhile is_digit xs)"
  by (induction xs) auto

lemma match_here_digits: "match_here s = Some d \<Longrightarrow> test_digits d"
  by (auto simp: match_here_def test_digits_def Let_def takeWhile_digits_all split: if_splits)

lemma match_fallback_digits: "match_fallback s = Some d \<Longrightarrow> test_digits d"
  by (induction s) (auto simp: match_here_digits split: option.splits)

lemma nth_last_filter: "filter P xs \<noteq> [] \<Longrightarrow> P (filter P xs ! (length (filter P xs) - Suc 0))"
proof -
  assume a: "filter P xs \<noteq> []"
  then have "last (filter P xs) \<in> set (filter P xs)" by (rule last_in_set)
  then show ?thesis using a by (simp add: last_conv_nth)
qed

text \<open>
  Claim C9. For every input string and whatever the URL constructor does,
  \<open>extractTaskGid\<close> returns: a parse failure is the value \<open>None\<close> of \<open>newURL\<close> and is
  handled inside. The result is \<open>None\<close> (NotFound) or a TaskId, and every TaskId returned
  is a non-empty string of digits.
\<close>

theorem extractTaskGid_total_digits:
  "extractTaskGid newURL url = None \<or>
   (\<exists>t. extractTaskGid newURL url = Some t \<and> t \<noteq> [] \<and> list_all is_digit t)"
proof (cases "extractTaskGid newURL url")
  case None
  then show ?thesis by simp
next
  case (Some t)
  have "test_digits t"
    using Some
    using nth_last_filter [of "\<lambda>x. x \<noteq> [] \<and> test_digits x"]
    by (auto simp: extractTaskGid_def Let_def match_fallback_digits
        split: if_splits option.splits)
  then show ?thesis using Some by (simp add: test_digits_def)
qed

lemma startsWith_iff: "startsWith s p \<longleftrightarrow> (\<exists>r. s = p @ r)"
  by (metis append_eq_conv_conj startsWith_def)

lemma match_here_iff: "match_here s = Some d \<longleftrightarrow> pattern_at s 0 d"
proof
  assume "match_here s = Some d"
  then obtain r where s: "s = ''asana.com/0/'' @ r"
    and c: "takeWhile (\<lambda>c. c \<noteq> CHR ''/'') r \<noteq> []"
    and sl: "startsWith (dropWhile (\<lambda>c. c \<noteq> CHR ''/'') r) ''/''"
    and d: "d = takeWhile is_digit (drop 1 (dropWhile (\<lambda>c. c \<noteq> CHR ''/'') r))" "d \<noteq> []"
    unfolding match_here_def Let_def
    by (auto simp: startsWith_iff split: if_splits)
  from sl obtain r2 where r2: "dropWhile (\<lambda>c. c \<noteq> CHR ''/'') r = ''/'' @ r2"
    by (auto simp: startsWith_iff)
  have r: "r = takeWhile (\<lambda>c. c \<noteq> CHR ''/'') r @ ''/'' @ takeWhile is_digit r2 @ dropWhile is_digit r2"
    using r2 by (metis takeWhile_dropWhile_id)
  have nd: "dropWhile is_digit r2 = [] \<or> \<not> is_digit (hd (dropWhile is_digit r2))"
    by (metis hd_dropWhile)
  have ns: "CHR ''/'' \<notin> set (takeWhile (\<lambda>c. c \<noteq> CHR ''/'') r)"
    by (metis (mono_tags, lifting) set_takeWhileD)
  have dd: "d = takeWhile is_digit r2" using d r2 by simp
  show "pattern_at s 0 d"
    unfolding pattern_at_def
    apply (rule exI [of _ "takeWhile (\<lambda>c. c \<noteq> CHR ''/'') r"])
    apply (rule exI [of _ "dropWhile is_digit r2"])
    using s r c ns nd dd d(2) by (simp add: test_digits_def takeWhile_digits_all)
next
  assume "pattern_at s 0 d"
  then obtain ctx rest where s: "s = ''asana.com/0/'' @ ctx @ ''/'' @ d @ rest"
    and c: "ctx \<noteq> []" "CHR ''/'' \<notin> set ctx" and d: "test_digits d"
    and r: "rest = [] \<or> \<not> is_digit (hd rest)"
    unfolding pattern_at_def by auto
  have t1: "takeWhile (\<lambda>c. c \<noteq> CHR ''/'') (ctx @ ''/'' @ d @ rest) = ctx"
    using c(2) by (induction ctx) auto
  have t2: "dropWhile (\<lambda>c. c \<noteq> CHR ''/'') (ctx @ ''/'' @ d @ rest) = ''/'' @ d @ rest"
    using c(2) by (induction ctx) auto
  have t3: "takeWhile is_digit (d @ rest) = d"
  proof -
    have "\<forall>x\<in>set d. is_digit x" using d by (simp add: test_digits_def list_all_iff)
    moreover have "takeWhile is_digit rest = []" using r by (cases rest) auto
    ultimately show ?thesis by simp
  qed
  show "match_here s = Some d"
    unfolding match_here_def Let_def s
    using t1 t2 t3 c(1) d by (simp add: startsWith_def test_digits_def)
qed

lemma pattern_at_Cons: "pattern_at (c # cs) (Suc i) d \<longleftrightarrow> pattern_at cs i d"
  by (simp add: pattern_at_def)

lemma pattern_at_Nil: "\<not> pattern_at [] i d"
  by (simp add: pattern_at_def)

lemma match_fallback_None: "match_fallback s = None \<longleftrightarrow> (\<forall>i d. \<not> pattern_at s i d)"
proof (induction s)
  case Nil
  show ?case using match_here_iff [of "[]"] by (auto simp: pattern_at_Nil)
next
  case (Cons c cs)
  show ?case
  proof
    assume a: "match_fallback (c # cs) = None"
    then have h: "match_here (c # cs) = None" and t: "match_fallback cs = None"
      by (auto split: option.splits)
    show "\<forall>i d. \<not> pattern_at (c # cs) i d"
    proof (intro allI)
      fix i d
      show "\<not> pattern_at (c # cs) i d"
      proof (cases i)
        case 0
        then show ?thesis using h match_here_iff [of "c # cs" d] by simp
      next
        case (Suc j)
        then show ?thesis using t Cons.IH by (simp add: pattern_at_Cons)
      qed
    qed
  next
    assume a: "\<forall>i d. \<not> pattern_at (c # cs) i d"
    then have "match_here (c # cs) = None"
      using match_here_iff [of "c # cs"] by (cases "match_here (c # cs)") auto
    moreover have "match_fallback cs = None"
      using a Cons.IH pattern_at_Cons by blast
    ultimately show "match_fallback (c # cs) = None" by simp
  qed
qed

lemma match_fallback_Some:
  "match_fallback s = Some d \<longleftrightarrow> (\<exists>i. pattern_at s i d \<and> (\<forall>j<i. \<forall>d'. \<not> pattern_at s j d'))"
proof (induction s)
  case Nil
  show ?case using match_here_iff [of "[]"] by (auto simp: pattern_at_Nil)
next
  case (Cons c cs)
  show ?case
  proof (cases "match_here (c # cs)")
    case (Some m)
    then have p0: "pattern_at (c # cs) 0 m" by (simp add: match_here_iff)
    have "d = m" if "pattern_at (c # cs) i d" "\<forall>j<i. \<forall>d'. \<not> pattern_at (c # cs) j d'" for i
    proof -
      have "i = 0" using that(2) p0 by (cases i) auto
      then show ?thesis using that(1) Some match_here_iff [of "c # cs" d] by simp
    qed
    moreover have "\<exists>i. pattern_at (c # cs) i m \<and> (\<forall>j<i. \<forall>d'. \<not> pattern_at (c # cs) j d')"
      using p0 by (intro exI [of _ 0]) simp
    ultimately show ?thesis using Some by auto
  next
    case None
    then have n0: "\<And>d'. \<not> pattern_at (c # cs) 0 d'"
      using match_here_iff [of "c # cs"] by simp
    have l: "(\<exists>i. pattern_at (c # cs) i d \<and> (\<forall>j<i. \<forall>d'. \<not> pattern_at (c # cs) j d')) \<longleftrightarrow>
             (\<exists>i. pattern_at cs i d \<and> (\<forall>j<i. \<forall>d'. \<not> pattern_at cs j d'))"
    proof
      assume "\<exists>i. pattern_at (c # cs) i d \<and> (\<forall>j<i. \<forall>d'. \<not> pattern_at (c # cs) j d')"
      then obtain i where i: "pattern_at (c # cs) i d" "\<forall>j<i. \<forall>d'. \<not> pattern_at (c # cs) j d'"
        by blast
      then obtain k where k: "i = Suc k" using n0 by (cases i) auto
      have "pattern_at cs k d" using i(1) k by (simp add: pattern_at_Cons)
      moreover have "\<forall>j<k. \<forall>d'. \<not> pattern_at cs j d'"
        using i(2) k pattern_at_Cons by (metis Suc_less_eq)
      ultimately show "\<exists>i. pattern_at cs i d \<and> (\<forall>j<i. \<forall>d'. \<not> pattern_at cs j d')" by blast
    next
      assume "\<exists>i. pattern_at cs i d \<and> (\<forall>j<i. \<forall>d'. \<not> pattern_at cs j d')"
      then obtain k where k: "pattern_at cs k d" "\<forall>j<k. \<forall>d'. \<not> pattern_at cs j d'" by blast
      have "pattern_at (c # cs) (Suc k) d" using k(1) by (simp add: pattern_at_Cons)
      moreover have "\<forall>j<Suc k. \<forall>d'. \<not> pattern_at (c # cs) j d'"
      proof (intro allI impI)
        fix j d' assume "j < Suc k"
        then show "\<not> pattern_at (c # cs) j d'"
          using n0 k(2) by (cases j) (auto simp: pattern_at_Cons)
      qed
      ultimately show "\<exists>i. pattern_at (c # cs) i d \<and> (\<forall>j<i. \<forall>d'. \<not> pattern_at (c # cs) j d')"
        by blast
    qed
    show ?thesis using None Cons.IH l by simp
  qed
qed


theorem extractTaskGid_total_digits_witness:
  "extractTaskGid url_table ''see asana.com/0/foo/42 now'' = Some ''42'' \<and>
   ''42'' \<noteq> [] \<and> list_all is_digit ''42''"
proof -
  have e: "extractTaskGid url_table ''see asana.com/0/foo/42 now'' = Some ''42''"
    by code_simp
  show ?thesis
    using extractTaskGid_total_digits [of url_table "''see asana.com/0/foo/42 now''"] e
    by simp
qed

text \<open>
  Claim C3, amended. The empty input is NotFound. For every other input the resolver
  computes the rules of \<open>resolve\<close> in order, first match wins, where the default scheme
  \<^verbatim>\<open>https://\<close> is prefixed exactly when the trimmed input does not begin with the four
  characters \<^verbatim>\<open>http\<close>: (1) a trimmed input of digits only is returned as it is; (2) and
  (3) otherwise the URL is parsed, a host that does not contain \<^verbatim>\<open>asana.com\<close> gives
  NotFound, and the last purely numeric path segment is returned when there is one; (4)
  and (5) in the remaining cases the fallback returns the digits captured by the
  leftmost match of the pattern, and NotFound when the pattern matches nowhere.
\<close>

theorem extractTaskGid_rules:
  "extractTaskGid newURL [] = None \<and>
   (url \<noteq> [] \<longrightarrow>
      extractTaskGid newURL url = resolve (\<lambda>t. startsWith t ''http'') newURL url) \<and>
   (match_fallback t = Some d \<longleftrightarrow>
      (\<exists>i. pattern_at t i d \<and> (\<forall>j<i. \<forall>d'. \<not> pattern_at t j d'))) \<and>
   (match_fallback t = None \<longleftrightarrow> (\<forall>i d. \<not> pattern_at t i d))"
proof (intro conjI impI)
  show "extractTaskGid newURL [] = None"
    by (simp add: extractTaskGid_def)
next
  assume ne: "url \<noteq> []"
  have nth: "ns \<noteq> [] \<Longrightarrow> ns ! (length ns - 1) = last ns" for ns :: "string list"
    by (simp add: last_conv_nth)
  have fb: "(case match_fallback c of Some m \<Rightarrow> Some m | None \<Rightarrow> None) = match_fallback c" for c
    by (cases "match_fallback c") simp_all
  show "extractTaskGid newURL url = resolve (\<lambda>t. startsWith t ''http'') newURL url"
  proof (cases "test_digits (trim url)")
    case True
    then show ?thesis using ne by (simp add: extractTaskGid_def resolve_def)
  next
    case nd: False
    show ?thesis
    proof (cases "newURL (if startsWith (trim url) ''http'' then trim url else ''https://'' @ trim url)")
      case None
      then show ?thesis using ne nd
        by (simp add: extractTaskGid_def resolve_def Let_def fb)
    next
      case (Some u)
      show ?thesis
      proof (cases "filter test_digits (filter (\<lambda>seg. seg \<noteq> []) (split_on (CHR ''/'') (pathname u)))")
        case Nil
        then show ?thesis using ne nd Some
          by (simp add: extractTaskGid_def resolve_def Let_def fb)
      next
        case (Cons n ns)
        then show ?thesis using ne nd Some nth [of "n # ns"]
          by (simp add: extractTaskGid_def resolve_def Let_def fb)
      qed
    qed
  qed
next
  show "match_fallback t = Some d \<longleftrightarrow>
      (\<exists>i. pattern_at t i d \<and> (\<forall>j<i. \<forall>d'. \<not> pattern_at t j d'))"
    by (rule match_fallback_Some)
next
  show "match_fallback t = None \<longleftrightarrow> (\<forall>i d. \<not> pattern_at t i d)"
    by (rule match_fallback_None)
qed

theorem extractTaskGid_rules_witness:
  "''https://app.asana.com/0/12345/67890/f'' \<noteq> [] \<and>
   extractTaskGid url_table ''https://app.asana.com/0/12345/67890/f'' =
     resolve (\<lambda>t. startsWith t ''http'') url_table ''https://app.asana.com/0/12345/67890/f'' \<and>
   extractTaskGid url_table ''https://app.asana.com/0/12345/67890/f'' = Some ''67890'' \<and>
   extractTaskGid url_table ''app.asana.com/0/12345/67890'' = Some ''67890'' \<and>
   extractTaskGid url_table ''example.com/0/12345/67890'' = None \<and>
   extractTaskGid url_table ''  67890 '' = Some ''67890'' \<and>
   match_fallback ''see asana.com/0/foo/42 now'' = Some ''42'' \<and>
   pattern_at ''see asana.com/0/foo/42 now'' 4 ''42''"
proof -
  have e1: "extractTaskGid url_table ''https://app.asana.com/0/12345/67890/f'' = Some ''67890''"
    by code_simp
  have e2: "extractTaskGid url_table ''app.asana.com/0/12345/67890'' = Some ''67890''"
    by code_simp
  have e3: "extractTaskGid url_table ''example.com/0/12345/67890'' = None"
    by code_simp
  have e4: "extractTaskGid url_table ''  67890 '' = Some ''67890''"
    by code_simp
  have e5: "match_fallback ''see asana.com/0/foo/42 now'' = Some ''42''"
    by code_simp
  have p: "pattern_at ''see asana.com/0/foo/42 now'' 4 ''42''"
    unfolding pattern_at_def
    by (rule exI [of _ "''foo''"], rule exI [of _ "'' now''"])
       (simp add: test_digits_def is_digit_def)
  note r = extractTaskGid_rules [of url_table "''https://app.asana.com/0/12345/67890/f''"
      "''see asana.com/0/foo/42 now''" "''42''"]
  show ?thesis using r e1 e2 e3 e4 e5 p by simp
qed

text \<open>
  Claim C3 as stated, with the scheme prefixed "when no scheme is present", fails: the
  input \<^verbatim>\<open>httpbin.asana.com/0/1/2/3\<close> has no scheme, the code does not prefix it because it
  begins with \<^verbatim>\<open>http\<close>, the URL constructor throws, and the fallback returns 2, where the
  rules as stated return the last numeric path segment 3.
\<close>

theorem extractTaskGid_scheme_counterexample:
  "\<not> has_scheme ''httpbin.asana.com/0/1/2/3'' \<and>
   extractTaskGid url_table ''httpbin.asana.com/0/1/2/3'' = Some ''2'' \<and>
   resolve has_scheme url_table ''httpbin.asana.com/0/1/2/3'' = Some ''3''"
proof -
  have a: "\<not> has_scheme ''httpbin.asana.com/0/1/2/3''" by code_simp
  have b: "extractTaskGid url_table ''httpbin.asana.com/0/1/2/3'' = Some ''2''" by code_simp
  have c: "resolve has_scheme url_table ''httpbin.asana.com/0/1/2/3'' = Some ''3''" by code_simp
  show ?thesis using a b c by simp
qed

section \<open>Properties of the ingestion engine\<close>

lemma without_sink_simps [simp]:
  "without_sink None = None"
  "without_sink (Some (x, w, l)) = Some (x, w)"
  by (simp_all add: without_sink_def)



lemma for_subtasks_Cons:
  "for_subtasks recurse log depth n (sub # rest) cnt acc w l =
     (case recurse (gid sub) w (log_progress log depth (cnt + 1) n sub l) of
        None \<Rightarrow> None
      | Some (Inr c, w', l') \<Rightarrow> for_subtasks recurse log depth n rest (cnt + 1) (acc @ [c]) w' l'
      | Some (Inl e, w', l') \<Rightarrow>
          for_subtasks recurse log depth n rest (cnt + 1) acc w'
            (log (failure_message depth sub e) Error l'))"
  by (auto simp: Let_def log_progress_def failure_message_def
      split: option.splits prod.splits sum.splits)

lemma processTask_Suc:
  "processTask (Suc k) net g token log depth w l =
     (case fetchAsana (fetch_task net) (task_path g) token w of
        (Inl e, w1) \<Rightarrow> Some (Inl e, w1, log_opening log depth g l)
      | (Inr task, w1) \<Rightarrow>
          (case fetchAsana (fetch_stories net) (stories_path g) token w1 of
             (Inl e, w2) \<Rightarrow> Some (Inl e, w2, log_opening log depth g l)
           | (Inr allStories, w2) \<Rightarrow>
               (case fetchAsana (fetch_subtasks net) (subtasks_path g) token w2 of
                  (Inl e, w3) \<Rightarrow> Some (Inl e, w3, log_opening log depth g l)
                | (Inr subtaskList, w3) \<Rightarrow>
                    if subtaskList = []
                    then Some (Inr (EnrichedTask task (filter is_comment allStories) []), w3,
                               log_opening log depth g l)
                    else
                      (case for_subtasks (\<lambda>g'. processTask k net g' token log (depth + 1)) log depth
                              (length subtaskList) subtaskList 0 [] w3
                              (log_found log depth (length subtaskList) (log_opening log depth g l)) of
                         None \<Rightarrow> None
                       | Some (children, w4, l3) \<Rightarrow>
                           Some (Inr (EnrichedTask task (filter is_comment allStories) children),
                                 w4, l3)))))"
proof -
  have c: "is_comment = (\<lambda>s. resource_subtype s = ''comment_added'')"
    by (simp add: fun_eq_iff is_comment_def)
  show ?thesis
    unfolding processTask.simps task_path_def stories_path_def subtasks_path_def
      log_opening_def log_found_def c Let_def
    by (auto split: prod.splits sum.splits option.splits)
qed

declare for_subtasks.simps(2) [simp del] processTask.simps(2) [simp del]



lemma fetchAsana_unfold:
  "fetchAsana fetch path token w =
     (case fetch (ASANA_API_BASE @ path) (request_headers token) w of
        (Rejected e, w') \<Rightarrow> (Inl e, w')
      | (Resolved response, w') \<Rightarrow>
          if ok response then (json_data response, w')
          else (Inl (JsError ''Error''
                  (if status response = 401 then ''Unauthorized: Invalid Personal Access Token.''
                   else if status response = 404
                   then ''Not Found: Resource at '' @ path @ '' does not exist or you lack access.''
                   else if status response = 429
                   then ''Rate Limit Exceeded: Please wait a moment and try again.''
                   else ''Asana API Error: '' @ string_of_nat (status response) @ '' '' @
                        statusText response)), w'))"
  by (auto simp: fetchAsana_def request_headers_def Let_def split: prod.splits Fetched.splits)

lemma fetchAsana_ok:
  "fetch (ASANA_API_BASE @ path) (request_headers token) w = (Resolved r, w') \<Longrightarrow> ok r \<Longrightarrow>
   fetchAsana fetch path token w = (json_data r, w')"
  by (simp add: fetchAsana_unfold)

lemma fetchAsana_recording_task:
  "fetchAsana (fetch_task (recording net)) path token (w, tr) =
     (case fetchAsana (fetch_task net) path token w of
        (x, w') \<Rightarrow>
          (x, w', tr @ [TaskExchange (ASANA_API_BASE @ path)
                        (fst (fetch_task net (ASANA_API_BASE @ path) (request_headers token) w))]))"
  by (auto simp: fetchAsana_unfold recording_def split: prod.splits Fetched.splits)

lemma fetchAsana_recording_stories:
  "fetchAsana (fetch_stories (recording net)) path token (w, tr) =
     (case fetchAsana (fetch_stories net) path token w of
        (x, w') \<Rightarrow>
          (x, w', tr @ [StoriesExchange (ASANA_API_BASE @ path)
                        (fst (fetch_stories net (ASANA_API_BASE @ path) (request_headers token) w))]))"
  by (auto simp: fetchAsana_unfold recording_def split: prod.splits Fetched.splits)

lemma fetchAsana_recording_subtasks:
  "fetchAsana (fetch_subtasks (recording net)) path token (w, tr) =
     (case fetchAsana (fetch_subtasks net) path token w of
        (x, w') \<Rightarrow>
          (x, w', tr @ [SubtasksExchange (ASANA_API_BASE @ path)
                        (fst (fetch_subtasks net (ASANA_API_BASE @ path) (request_headers token) w))]))"
  by (auto simp: fetchAsana_unfold recording_def split: prod.splits Fetched.splits)

text \<open>
  Claim C4. When the three reads of the root succeed and the subtask listing is empty,
  \<open>processTask\<close> returns (with any bound of at least 1) the task with its comment entries
  and an empty children sequence, and the network has served exactly three requests:
  task metadata, activity entries, subtask listing, in that order.
\<close>

theorem ingest_without_subtasks:
  assumes "fetch_task net (ASANA_API_BASE @ task_path g) (request_headers token) w = (Resolved r1, w1)"
    and "ok r1" and "json_data r1 = Inr task"
    and "fetch_stories net (ASANA_API_BASE @ stories_path g) (request_headers token) w1 = (Resolved r2, w2)"
    and "ok r2" and "json_data r2 = Inr allStories"
    and "fetch_subtasks net (ASANA_API_BASE @ subtasks_path g) (request_headers token) w2 = (Resolved r3, w3)"
    and "ok r3" and "json_data r3 = Inr []"
  shows "processTask (Suc k) (recording net) g token log depth (w, []) l =
         Some (Inr (EnrichedTask task (filter is_comment allStories) []),
               (w3, [TaskExchange (ASANA_API_BASE @ task_path g) (Resolved r1),
                     StoriesExchange (ASANA_API_BASE @ stories_path g) (Resolved r2),
                     SubtasksExchange (ASANA_API_BASE @ subtasks_path g) (Resolved r3)]),
               log_opening log depth g l)"
proof -
  have a: "fetchAsana (fetch_task net) (task_path g) token w = (Inr task, w1)"
    using assms(1-3) fetchAsana_ok [of "fetch_task net"] by simp
  have b: "fetchAsana (fetch_stories net) (stories_path g) token w1 = (Inr allStories, w2)"
    using assms(4-6) fetchAsana_ok [of "fetch_stories net"] by simp
  have c: "fetchAsana (fetch_subtasks net) (subtasks_path g) token w2 = (Inr [], w3)"
    using assms(7-9) fetchAsana_ok [of "fetch_subtasks net"] by simp
  show ?thesis
    unfolding processTask_Suc
    by (simp add: fetchAsana_recording_task fetchAsana_recording_stories
        fetchAsana_recording_subtasks a b c assms(1,4,7))
qed

lemma for_subtasks_no_success:
  assumes r: "\<And>g w l r w' l'. recurse g w l = Some (r, w', l') \<Longrightarrow>
      filter (\<lambda>x. snd x = Success) l' = filter (\<lambda>x. snd x = Success) l"
    and "for_subtasks recurse record_log depth n subs cnt acc w l = Some (cs, w', l')"
  shows "filter (\<lambda>x. snd x = Success) l' = filter (\<lambda>x. snd x = Success) l"
  using assms(2)
proof (induction subs arbitrary: cnt acc w l)
  case Nil
  then show ?case by simp
next
  case (Cons sub rest)
  let ?m = "log_progress record_log depth (cnt + 1) n sub l"
  have m: "filter (\<lambda>x. snd x = Success) ?m = filter (\<lambda>x. snd x = Success) l"
    by (simp add: log_progress_def record_log_def)
  from Cons.prems obtain x w1 l1 where s: "recurse (gid sub) w ?m = Some (x, w1, l1)"
    by (auto simp: for_subtasks_Cons split: option.splits)
  have l1: "filter (\<lambda>x. snd x = Success) l1 = filter (\<lambda>x. snd x = Success) l"
    using r [OF s] m by simp
  show ?case
  proof (cases x)
    case (Inl e)
    then have "for_subtasks recurse record_log depth n rest (cnt + 1) acc w1
        (record_log (failure_message depth sub e) Error l1) = Some (cs, w', l')"
      using Cons.prems s by (simp add: for_subtasks_Cons)
    from Cons.IH [OF this] l1 show ?thesis by (simp add: record_log_def)
  next
    case (Inr c)
    then have "for_subtasks recurse record_log depth n rest (cnt + 1) (acc @ [c]) w1 l1 =
        Some (cs, w', l')"
      using Cons.prems s by (simp add: for_subtasks_Cons)
    from Cons.IH [OF this] l1 show ?thesis by simp
  qed
qed

lemma processTask_no_success:
  "processTask k net g token record_log depth w l = Some (r, w', l') \<Longrightarrow>
   filter (\<lambda>x. snd x = Success) l' = filter (\<lambda>x. snd x = Success) l"
proof (induction k arbitrary: g depth w l r w' l')
  case 0
  then show ?case by simp
next
  case (Suc k)
  have o: "filter (\<lambda>x. snd x = Success) (log_opening record_log depth g l) =
           filter (\<lambda>x. snd x = Success) l"
    by (simp add: log_opening_def record_log_def)
  have f: "filter (\<lambda>x. snd x = Success) (log_found record_log depth n (log_opening record_log depth g l)) =
           filter (\<lambda>x. snd x = Success) l" for n
    by (simp add: log_found_def log_opening_def record_log_def)
  show ?case
    using Suc.prems unfolding processTask_Suc
    by (auto simp: o f split: prod.splits sum.splits if_splits option.splits
        dest!: for_subtasks_no_success [rotated] dest: Suc.IH)
qed

text \<open>
  Claim C2. If the read of the root's metadata fails, or that read succeeds and the read
  of its activity entries fails, or both succeed and the subtask listing fails, then
  \<open>processTask\<close> at depth 0 ends with that very error and no tree, having called the sink
  once, with the opening message of severity info. No run of the engine, at any depth,
  adds an entry of severity success to the recording sink.
\<close>

theorem root_failure_propagates:
  "(fetchAsana (fetch_task net) (task_path g) token w = (Inl e, w1) \<longrightarrow>
      processTask (Suc k) net g token log 0 w l =
        Some (Inl e, w1, log (''Fetching main task details ('' @ g @ '')...'') Info l)) \<and>
   (fetchAsana (fetch_task net) (task_path g) token w = (Inr task, w1) \<and>
    fetchAsana (fetch_stories net) (stories_path g) token w1 = (Inl e, w2) \<longrightarrow>
      processTask (Suc k) net g token log 0 w l =
        Some (Inl e, w2, log (''Fetching main task details ('' @ g @ '')...'') Info l)) \<and>
   (fetchAsana (fetch_task net) (task_path g) token w = (Inr task, w1) \<and>
    fetchAsana (fetch_stories net) (stories_path g) token w1 = (Inr allStories, w2) \<and>
    fetchAsana (fetch_subtasks net) (subtasks_path g) token w2 = (Inl e, w3) \<longrightarrow>
      processTask (Suc k) net g token log 0 w l =
        Some (Inl e, w3, log (''Fetching main task details ('' @ g @ '')...'') Info l)) \<and>
   (processTask k' net g token record_log depth w entries = Some (r, w', entries') \<longrightarrow>
      filter (\<lambda>x. snd x = Success) entries' = filter (\<lambda>x. snd x = Success) entries)"
  by (auto simp: processTask_Suc log_opening_def dest: processTask_no_success)

lemma successes_append [simp]: "successes (xs @ ys) = successes xs @ successes ys"
  by (induction xs rule: successes.induct) auto







lemma map_filter_append [simp]:
  "List.map_filter f (xs @ ys) = List.map_filter f xs @ List.map_filter f ys"
  by (simp add: List.map_filter_def)

lemma map_filter_single:
  "List.map_filter f [x] = (case f x of None \<Rightarrow> [] | Some y \<Rightarrow> [y])"
  by (simp add: List.map_filter_def split: option.splits)

lemma backed_mono: "backed tr t \<Longrightarrow> backed (tr @ new) t"
  by (auto simp: backed_def)

lemma counted_Nil: "counted []"
  by (simp add: counted_def List.map_filter_def)

lemma counted_append: "counted a \<Longrightarrow> counted b \<Longrightarrow> counted (a @ b)"
  by (auto simp: counted_def)

lemma fetchAsana_delivered:
  "fetchAsana fetch path token w = (x, w') \<Longrightarrow>
   delivered (fst (fetch (ASANA_API_BASE @ path) (request_headers token) w)) =
     (case x of Inl e \<Rightarrow> None | Inr d \<Rightarrow> Some d)"
  by (auto simp: fetchAsana_unfold split: prod.splits Fetched.splits if_splits sum.splits)

lemma for_subtasks_recording:
  assumes r: "\<And>g w tr l x w' tr' l'. recurse g (w, tr) l = Some (x, (w', tr'), l') \<Longrightarrow>
      (\<exists>new. tr' = tr @ new \<and> counted new) \<and> (\<forall>t. x = Inr t \<longrightarrow> backed tr' t)"
    and run: "for_subtasks recurse log depth n subs cnt acc (w, tr) l = Some (cs, (w', tr'), l')"
    and acc: "\<forall>c\<in>set acc. backed tr c"
  shows "(\<exists>new. tr' = tr @ new \<and> counted new) \<and> (\<forall>c\<in>set cs. backed tr' c)"
  using run acc
proof (induction subs arbitrary: cnt acc w tr l)
  case Nil
  then show ?case by (auto simp: counted_Nil)
next
  case (Cons sub rest)
  let ?m = "log_progress log depth (cnt + 1) n sub l"
  from Cons.prems(1) obtain x w1 tr1 l1 where
    s: "recurse (gid sub) (w, tr) ?m = Some (x, (w1, tr1), l1)"
    by (auto simp: for_subtasks_Cons split: option.splits)
  from r [OF s] obtain new1 where n1: "tr1 = tr @ new1" "counted new1"
    and b1: "\<forall>t. x = Inr t \<longrightarrow> backed tr1 t"
    by blast
  have acc1: "\<forall>c\<in>set acc. backed tr1 c"
    using Cons.prems(2) n1(1) backed_mono by blast
  show ?case
  proof (cases x)
    case (Inl e)
    then have "for_subtasks recurse log depth n rest (cnt + 1) acc (w1, tr1)
        (log (failure_message depth sub e) Error l1) = Some (cs, (w', tr'), l')"
      using Cons.prems(1) s by (simp add: for_subtasks_Cons)
    from Cons.IH [OF this acc1] obtain new2 where "tr' = tr1 @ new2" "counted new2"
      and c: "\<forall>c\<in>set cs. backed tr' c"
      by blast
    then have "tr' = tr @ (new1 @ new2) \<and> counted (new1 @ new2)"
      using n1 counted_append by simp
    with c show ?thesis by blast
  next
    case (Inr c)
    then have run': "for_subtasks recurse log depth n rest (cnt + 1) (acc @ [c]) (w1, tr1) l1 =
        Some (cs, (w', tr'), l')"
      using Cons.prems(1) s by (simp add: for_subtasks_Cons)
    have "\<forall>c'\<in>set (acc @ [c]). backed tr1 c'"
      using acc1 b1 Inr by simp
    from Cons.IH [OF run' this] obtain new2 where "tr' = tr1 @ new2" "counted new2"
      and c: "\<forall>c\<in>set cs. backed tr' c"
      by blast
    then have "tr' = tr @ (new1 @ new2) \<and> counted (new1 @ new2)"
      using n1 counted_append by simp
    with c show ?thesis by blast
  qed
qed

lemma backed_leaf:
  "delivered_stories e = Some raw \<Longrightarrow> e \<in> set tr \<Longrightarrow>
   \<forall>c\<in>set cs. backed tr c \<Longrightarrow> backed tr (EnrichedTask task (filter is_comment raw) cs)"
proof -
  assume a: "delivered_stories e = Some raw" "e \<in> set tr" "\<forall>c\<in>set cs. backed tr c"
  have "raw \<in> set (List.map_filter delivered_stories tr)"
    using a(1,2) by (force simp: List.map_filter_def)
  then show ?thesis using a(3) by (auto simp: backed_def)
qed

lemma processTask_recording:
  "processTask k (recording net) g token log depth (w, tr) l = Some (x, (w', tr'), l') \<Longrightarrow>
   (\<exists>new. tr' = tr @ new \<and> counted new) \<and> (\<forall>t. x = Inr t \<longrightarrow> backed tr' t)"
proof (induction k arbitrary: g depth w tr l x w' tr' l')
  case 0
  then show ?case by simp
next
  case (Suc k)
  let ?B = ASANA_API_BASE and ?h = "request_headers token"
  obtain x1 w1 where f1: "fetchAsana (fetch_task net) (task_path g) token w = (x1, w1)"
    by fastforce
  let ?e1 = "TaskExchange (?B @ task_path g) (fst (fetch_task net (?B @ task_path g) ?h w))"
  have d1: "task_delivered ?e1 \<longleftrightarrow> (\<exists>task. x1 = Inr task)"
    using fetchAsana_delivered [OF f1] by (auto split: sum.splits)
  have r1: "fetchAsana (fetch_task (recording net)) (task_path g) token (w, tr) =
      (x1, w1, tr @ [?e1])"
    using f1 by (simp add: fetchAsana_recording_task)
  show ?case
  proof (cases x1)
    case (Inl e)
    then have "tr' = tr @ [?e1]" using Suc.prems r1 by (auto simp: processTask_Suc)
    moreover have "x = Inl e" using Suc.prems r1 Inl by (auto simp: processTask_Suc)
    moreover have "counted [?e1]" using d1 Inl by (simp add: counted_def map_filter_single)
    ultimately show ?thesis by auto
  next
    case task: (Inr task)
    obtain x2 w2 where f2: "fetchAsana (fetch_stories net) (stories_path g) token w1 = (x2, w2)"
      by fastforce
    let ?e2 = "StoriesExchange (?B @ stories_path g)
        (fst (fetch_stories net (?B @ stories_path g) ?h w1))"
    have d2: "delivered_stories ?e2 = (case x2 of Inl e \<Rightarrow> None | Inr d \<Rightarrow> Some d)"
      using fetchAsana_delivered [OF f2] by simp
    have r2: "fetchAsana (fetch_stories (recording net)) (stories_path g) token (w1, tr @ [?e1]) =
        (x2, w2, tr @ [?e1, ?e2])"
      using f2 by (simp add: fetchAsana_recording_stories)
    have c2: "counted [?e1, ?e2]"
      using d1 task by (auto simp: counted_def List.map_filter_def)
    show ?thesis
    proof (cases x2)
      case (Inl e)
      then have "tr' = tr @ [?e1, ?e2]" "x = Inl e"
        using Suc.prems r1 r2 task by (auto simp: processTask_Suc)
      then show ?thesis using c2 by auto
    next
      case raw: (Inr raw)
      obtain x3 w3 where
        f3: "fetchAsana (fetch_subtasks net) (subtasks_path g) token w2 = (x3, w3)"
        by fastforce
      let ?e3 = "SubtasksExchange (?B @ subtasks_path g)
          (fst (fetch_subtasks net (?B @ subtasks_path g) ?h w2))"
      have r3: "fetchAsana (fetch_subtasks (recording net)) (subtasks_path g) token
          (w2, tr @ [?e1, ?e2]) = (x3, w3, tr @ [?e1, ?e2, ?e3])"
        using f3 by (simp add: fetchAsana_recording_subtasks)
      have c3: "counted [?e1, ?e2, ?e3]"
        using d1 task by (auto simp: counted_def List.map_filter_def)
      have ds: "delivered_stories ?e2 = Some raw" using d2 raw by simp
      show ?thesis
      proof (cases x3)
        case (Inl e)
        then have "tr' = tr @ [?e1, ?e2, ?e3]" "x = Inl e"
          using Suc.prems r1 r2 r3 task raw by (auto simp: processTask_Suc)
        then show ?thesis using c3 by auto
      next
        case subs: (Inr subs)
        show ?thesis
        proof (cases "subs = []")
          case True
          then have tr': "tr' = tr @ [?e1, ?e2, ?e3]"
            and x: "x = Inr (EnrichedTask task (filter is_comment raw) [])"
            using Suc.prems r1 r2 r3 task raw subs by (auto simp: processTask_Suc)
          have "backed tr' (EnrichedTask task (filter is_comment raw) [])"
            by (rule backed_leaf [OF ds]) (simp_all add: tr')
          then show ?thesis using tr' x c3 by auto
        next
          case False
          from Suc.prems obtain cs where
            loop: "for_subtasks (\<lambda>g'. processTask k (recording net) g' token log (Suc depth)) log
                depth (length subs) subs 0 [] (w3, tr @ [?e1, ?e2, ?e3])
                (log_found log depth (length subs) (log_opening log depth g l)) =
                Some (cs, (w', tr'), l')"
            and x: "x = Inr (EnrichedTask task (filter is_comment raw) cs)"
            using r1 r2 r3 task raw subs False
            by (auto simp: processTask_Suc split: option.splits)
          have "(\<exists>new. tr' = (tr @ [?e1, ?e2, ?e3]) @ new \<and> counted new) \<and>
                (\<forall>c\<in>set cs. backed tr' c)"
            by (rule for_subtasks_recording [OF _ loop]) (rule Suc.IH, assumption, simp)
          then obtain new where n: "tr' = (tr @ [?e1, ?e2, ?e3]) @ new" "counted new"
            and b: "\<forall>c\<in>set cs. backed tr' c"
            by blast
          have "backed tr' (EnrichedTask task (filter is_comment raw) cs)"
            by (rule backed_leaf [OF ds _ b]) (simp add: n(1))
          moreover have "tr' = tr @ ([?e1, ?e2, ?e3] @ new)" using n(1) by simp
          moreover have "counted ([?e1, ?e2, ?e3] @ new)"
            using c3 n(2) by (rule counted_append)
          ultimately show ?thesis using x by blast
        qed
      qed
    qed
  qed
qed


text \<open>
  Claim C10. In every run that returns, the engine has made exactly one request for
  activity entries per successful read of task metadata, each for the path
  \<^verbatim>\<open>/tasks/<id>/stories\<close> with \<^verbatim>\<open>limit=100\<close> and no page offset. Consequently, when the
  service honours the limit, every node of the returned tree has at most 100 comments;
  and when each list the service delivers is the first 100 of the entries \<open>held\<close> that it
  holds for a task, the comments of every node are comment entries among those first 100.
\<close>

theorem one_stories_request_per_node:
  "processTask k (recording net) g token log depth (w, []) l = Some (x, (w', tr), l') \<Longrightarrow>
   length (List.map_filter stories_request tr) = length (filter task_delivered tr) \<and>
   (\<forall>url\<in>set (List.map_filter stories_request tr).
      \<exists>g'. url = ASANA_API_BASE @ ''/tasks/'' @ g' @
        ''/stories?opt_fields=text,created_at,created_by.name,resource_subtype&limit=100'') \<and>
   ((\<forall>raw\<in>set (List.map_filter delivered_stories tr). length raw \<le> 100) \<longrightarrow>
    (\<forall>t. x = Inr t \<longrightarrow> (\<forall>node\<in>set (nodes t). length (stories node) \<le> 100))) \<and>
   ((\<forall>raw\<in>set (List.map_filter delivered_stories tr). \<exists>g'. raw = take 100 (held g')) \<longrightarrow>
    (\<forall>t. x = Inr t \<longrightarrow>
       (\<forall>node\<in>set (nodes t). \<exists>g'. stories node = filter is_comment (take 100 (held g')))))"
proof -
  assume "processTask k (recording net) g token log depth (w, []) l = Some (x, (w', tr), l')"
  from processTask_recording [OF this] have c: "counted tr" and b: "\<forall>t. x = Inr t \<longrightarrow> backed tr t"
    by auto
  have le: "length (filter is_comment raw) \<le> 100" if "length raw \<le> 100" for raw :: "AsanaStory list"
    using that length_filter_le [of is_comment raw] by linarith
  have "\<forall>node\<in>set (nodes t). length (stories node) \<le> 100"
    if h1: "\<forall>raw\<in>set (List.map_filter delivered_stories tr). length raw \<le> 100"
      and h2: "x = Inr t" for t
  proof
    fix node assume "node \<in> set (nodes t)"
    then obtain raw where "raw \<in> set (List.map_filter delivered_stories tr)"
      "stories node = filter is_comment raw"
      using b h2 by (auto simp: backed_def)
    then show "length (stories node) \<le> 100" using h1 le by auto
  qed
  moreover have "\<forall>node\<in>set (nodes t). \<exists>g'. stories node = filter is_comment (take 100 (held g'))"
    if h1: "\<forall>raw\<in>set (List.map_filter delivered_stories tr). \<exists>g'. raw = take 100 (held g')"
      and h2: "x = Inr t" for t
  proof
    fix node assume "node \<in> set (nodes t)"
    then obtain raw where "raw \<in> set (List.map_filter delivered_stories tr)"
      "stories node = filter is_comment raw"
      using b h2 by (auto simp: backed_def)
    then show "\<exists>g'. stories node = filter is_comment (take 100 (held g'))" using h1 by auto
  qed
  moreover have "length (List.map_filter stories_request tr) = length (filter task_delivered tr)"
    using c by (simp add: counted_def)
  moreover have "\<forall>url\<in>set (List.map_filter stories_request tr).
      \<exists>g'. url = ASANA_API_BASE @ ''/tasks/'' @ g' @
        ''/stories?opt_fields=text,created_at,created_by.name,resource_subtype&limit=100''"
    using c by (simp add: counted_def stories_path_def)
  ultimately show ?thesis by blast
qed

subsection \<open>The run on the small service\<close>

lemma demo_run: "processTask 2 demo_net ''1'' ''token'' record_log 0 0 [] = Some (Inr demo_tree, 10, demo_log)"
  by code_simp

lemma demo_run_recorded:
  "processTask 2 (recording demo_net) ''1'' ''token'' record_log 0 (0, []) [] =
     Some (Inr demo_tree, (10, demo_trace), demo_log)"
  by code_simp



theorem root_failure_propagates_witness:
  "fetchAsana (fetch_task demo_net) (task_path ''12'') ''token'' 0 =
     (Inl (JsError ''Error'' (''Not Found: Resource at '' @ task_path ''12'' @
        '' does not exist or you lack access.'')), 1) \<and>
   processTask 1 demo_net ''12'' ''token'' record_log 0 0 [] =
     Some (Inl (JsError ''Error'' (''Not Found: Resource at '' @ task_path ''12'' @
        '' does not exist or you lack access.'')), 1,
        [(''Fetching main task details (12)...'', Info)]) \<and>
   fetchAsana (fetch_task demo_net) (task_path ''14'') ''token'' 0 = (Inr (demo_task ''14''), 1) \<and>
   fetchAsana (fetch_stories demo_net) (stories_path ''14'') ''token'' 1 =
     (Inl (JsError ''Error'' ''Rate Limit Exceeded: Please wait a moment and try again.''), 2) \<and>
   processTask 1 demo_net ''14'' ''token'' record_log 0 0 [] =
     Some (Inl (JsError ''Error'' ''Rate Limit Exceeded: Please wait a moment and try again.''), 2,
        [(''Fetching main task details (14)...'', Info)]) \<and>
   fetchAsana (fetch_task demo_net) (task_path ''15'') ''token'' 0 = (Inr (demo_task ''15''), 1) \<and>
   fetchAsana (fetch_stories demo_net) (stories_path ''15'') ''token'' 1 =
     (Inr [demo_story ''91'' ''comment_added'', demo_story ''92'' ''assigned'',
           demo_story ''93'' ''comment_added''], 2) \<and>
   fetchAsana (fetch_subtasks demo_net) (subtasks_path ''15'') ''token'' 2 =
     (Inl (JsError ''TypeError'' ''Failed to fetch''), 3) \<and>
   processTask 1 demo_net ''15'' ''token'' record_log 0 0 [] =
     Some (Inl (JsError ''TypeError'' ''Failed to fetch''), 3,
        [(''Fetching main task details (15)...'', Info)]) \<and>
   processTask 2 demo_net ''1'' ''token'' record_log 0 0 [] = Some (Inr demo_tree, 10, demo_log) \<and>
   filter (\<lambda>x. snd x = Success) demo_log = []"
proof -
  note p = root_failure_propagates
  have a1: "fetchAsana (fetch_task demo_net) (task_path ''12'') ''token'' 0 =
     (Inl (JsError ''Error'' (''Not Found: Resource at '' @ task_path ''12'' @
        '' does not exist or you lack access.'')), 1)"
    by code_simp
  have c1: "processTask (Suc 0) demo_net ''12'' ''token'' record_log 0 0 [] =
     Some (Inl (JsError ''Error'' (''Not Found: Resource at '' @ task_path ''12'' @
        '' does not exist or you lack access.'')), 1,
        record_log (''Fetching main task details ('' @ ''12'' @ '')...'') Info [])"
    by (rule p [THEN conjunct1, rule_format, OF a1])
  have a2: "fetchAsana (fetch_task demo_net) (task_path ''14'') ''token'' 0 = (Inr (demo_task ''14''), 1)"
    by code_simp
  have b2: "fetchAsana (fetch_stories demo_net) (stories_path ''14'') ''token'' 1 =
     (Inl (JsError ''Error'' ''Rate Limit Exceeded: Please wait a moment and try again.''), 2)"
    by code_simp
  have c2: "processTask (Suc 0) demo_net ''14'' ''token'' record_log 0 0 [] =
     Some (Inl (JsError ''Error'' ''Rate Limit Exceeded: Please wait a moment and try again.''), 2,
        record_log (''Fetching main task details ('' @ ''14'' @ '')...'') Info [])"
    by (rule p [THEN conjunct2, THEN conjunct1, rule_format, OF conjI [OF a2 b2]])
  have a3: "fetchAsana (fetch_task demo_net) (task_path ''15'') ''token'' 0 = (Inr (demo_task ''15''), 1)"
    by code_simp
  have b3: "fetchAsana (fetch_stories demo_net) (stories_path ''15'') ''token'' 1 =
     (Inr [demo_story ''91'' ''comment_added'', demo_story ''92'' ''assigned'',
           demo_story ''93'' ''comment_added''], 2)"
    by code_simp
  have d3: "fetchAsana (fetch_subtasks demo_net) (subtasks_path ''15'') ''token'' 2 =
     (Inl (JsError ''TypeError'' ''Failed to fetch''), 3)"
    by code_simp
  have c3: "processTask (Suc 0) demo_net ''15'' ''token'' record_log 0 0 [] =
     Some (Inl (JsError ''TypeError'' ''Failed to fetch''), 3,
        record_log (''Fetching main task details ('' @ ''15'' @ '')...'') Info [])"
    by (rule p [THEN conjunct2, THEN conjunct2, THEN conjunct1, rule_format,
          OF conjI [OF a3 conjI [OF b3 d3]]])
  have c4: "filter (\<lambda>x. snd x = Success) demo_log = filter (\<lambda>x. snd x = Success) []"
    by (rule p [THEN conjunct2, THEN conjunct2, THEN conjunct2, rule_format, OF demo_run])
  show ?thesis
    using a1 c1 a2 b2 c2 a3 b3 d3 c3 c4 demo_run by (simp add: record_log_def)
qed

theorem ingest_without_subtasks_witness:
  "fetch_task demo_net (ASANA_API_BASE @ task_path ''13'') (request_headers ''token'') 0 =
     (resolved 200 ''OK'' (Inr (demo_task ''13'')), 1) \<and>
   fetch_stories demo_net (ASANA_API_BASE @ stories_path ''13'') (request_headers ''token'') 1 =
     (resolved 200 ''OK'' (Inr [demo_story ''91'' ''comment_added'', demo_story ''92'' ''assigned'',
        demo_story ''93'' ''comment_added'']), 2) \<and>
   fetch_subtasks demo_net (ASANA_API_BASE @ subtasks_path ''13'') (request_headers ''token'') 2 =
     (resolved 200 ''OK'' (Inr []), 3) \<and>
   processTask 1 (recording demo_net) ''13'' ''token'' record_log 0 (0, []) [] =
     Some (Inr (EnrichedTask (demo_task ''13'') demo_comments []),
           (3, [TaskExchange (ASANA_API_BASE @ task_path ''13'')
                  (resolved 200 ''OK'' (Inr (demo_task ''13''))),
                StoriesExchange (ASANA_API_BASE @ stories_path ''13'')
                  (resolved 200 ''OK'' (Inr [demo_story ''91'' ''comment_added'',
                     demo_story ''92'' ''assigned'', demo_story ''93'' ''comment_added''])),
                SubtasksExchange (ASANA_API_BASE @ subtasks_path ''13'')
                  (resolved 200 ''OK'' (Inr []))]),
           [(''Fetching main task details (13)...'', Info)])"
proof -
  have h1: "fetch_task demo_net (ASANA_API_BASE @ task_path ''13'') (request_headers ''token'') 0 =
     (resolved 200 ''OK'' (Inr (demo_task ''13'')), 1)"
    by code_simp
  have h2: "fetch_stories demo_net (ASANA_API_BASE @ stories_path ''13'') (request_headers ''token'') 1 =
     (resolved 200 ''OK'' (Inr [demo_story ''91'' ''comment_added'', demo_story ''92'' ''assigned'',
        demo_story ''93'' ''comment_added'']), 2)"
    by code_simp
  have h3: "fetch_subtasks demo_net (ASANA_API_BASE @ subtasks_path ''13'') (request_headers ''token'') 2 =
     (resolved 200 ''OK'' (Inr []), 3)"
    by code_simp
  have c: "is_comment (demo_story ''91'' ''comment_added'')" "\<not> is_comment (demo_story ''92'' ''assigned'')"
    "is_comment (demo_story ''93'' ''comment_added'')"
    by (simp_all add: is_comment_def demo_story_def)
  from ingest_without_subtasks [OF h1 [unfolded resolved_def] _ _ h2 [unfolded resolved_def] _ _
      h3 [unfolded resolved_def], where k = 0 and log = record_log and depth = 0 and l = "[]"]
  have "processTask (Suc 0) (recording demo_net) ''13'' ''token'' record_log 0 (0, []) [] =
     Some (Inr (EnrichedTask (demo_task ''13'')
                  (filter is_comment [demo_story ''91'' ''comment_added'',
                     demo_story ''92'' ''assigned'', demo_story ''93'' ''comment_added'']) []),
           (3, [TaskExchange (ASANA_API_BASE @ task_path ''13'')
                  (resolved 200 ''OK'' (Inr (demo_task ''13''))),
                StoriesExchange (ASANA_API_BASE @ stories_path ''13'')
                  (resolved 200 ''OK'' (Inr [demo_story ''91'' ''comment_added'',
                     demo_story ''92'' ''assigned'', demo_story ''93'' ''comment_added''])),
                SubtasksExchange (ASANA_API_BASE @ subtasks_path ''13'')
                  (resolved 200 ''OK'' (Inr []))]),
           log_opening record_log 0 ''13'' [])"
    by (simp add: ok_def resolved_def)
  then show ?thesis
    using h1 h2 h3 c by (simp add: demo_comments_def log_opening_def record_log_def)
qed



theorem one_stories_request_per_node_witness:
  "processTask 2 (recording demo_net) ''1'' ''token'' record_log 0 (0, []) [] =
     Some (Inr demo_tree, (10, demo_trace), demo_log) \<and>
   List.map_filter stories_request demo_trace =
     map (\<lambda>g. ASANA_API_BASE @ stories_path g) [''1'', ''11'', ''13''] \<and>
   length (filter task_delivered demo_trace) = 3 \<and>
   list_all (\<lambda>raw. length raw \<le> 100) (List.map_filter delivered_stories demo_trace) \<and>
   list_all (\<lambda>node. length (stories node) \<le> 100) (nodes demo_tree) \<and>
   list_all (\<lambda>raw. raw = take 100 [demo_story ''91'' ''comment_added'',
       demo_story ''92'' ''assigned'', demo_story ''93'' ''comment_added''])
     (List.map_filter delivered_stories demo_trace) \<and>
   list_all (\<lambda>node. stories node = filter is_comment (take 100
       [demo_story ''91'' ''comment_added'', demo_story ''92'' ''assigned'',
        demo_story ''93'' ''comment_added'']))
     (nodes demo_tree)"
proof -
  let ?held = "\<lambda>g :: string. [demo_story ''91'' ''comment_added'',
       demo_story ''92'' ''assigned'', demo_story ''93'' ''comment_added'']"
  note t = one_stories_request_per_node [OF demo_run_recorded, where held = ?held]
  have a: "List.map_filter stories_request demo_trace =
     map (\<lambda>g. ASANA_API_BASE @ stories_path g) [''1'', ''11'', ''13'']"
    by code_simp
  have b: "length (filter task_delivered demo_trace) = 3"
    using t [THEN conjunct1] a by simp
  have c: "list_all (\<lambda>raw. length raw \<le> 100) (List.map_filter delivered_stories demo_trace)"
    by code_simp
  have "\<forall>node\<in>set (nodes demo_tree). length (stories node) \<le> 100"
    using t [THEN conjunct2, THEN conjunct2, THEN conjunct1] c unfolding list_all_iff by blast
  then have d: "list_all (\<lambda>node. length (stories node) \<le> 100) (nodes demo_tree)"
    unfolding list_all_iff .
  have e: "list_all (\<lambda>raw. raw = take 100 (?held [])) (List.map_filter delivered_stories demo_trace)"
    by code_simp
  have "\<forall>node\<in>set (nodes demo_tree). \<exists>g'. stories node = filter is_comment (take 100 (?held g'))"
    using t [THEN conjunct2, THEN conjunct2, THEN conjunct2] e unfolding list_all_iff by blast
  then have f: "list_all (\<lambda>node. stories node = filter is_comment (take 100 (?held [])))
      (nodes demo_tree)"
    unfolding list_all_iff by simp
  show ?thesis using demo_run_recorded a b c d e f by simp
qed

section \<open>Properties of the document renderer\<close>

lemma foldl_append_each: "foldl (\<lambda>md x. md @ f x) init xs = init @ concat (map f xs)"
  by (induction xs arbitrary: init) auto

lemma renderSubtask_unfold:
  "renderSubtask L sub level index md =
     renderSubtasks L (subtasks sub) (level + 1) 0
       (md @ subtask_heading level (index + 1) sub @ subtask_details L sub) @ ''\<newline>''"
proof (cases sub)
  case (EnrichedTask f st cs)
  have b: "(\<lambda>md s. md @ ''- **'' @
              (case created_by s of None \<Rightarrow> ''Unknown''
               | Some u \<Rightarrow> if user_name u = [] then ''Unknown'' else user_name u) @
              ''**: '' @ replace_newlines '' '' (story_text s) @ ''\<newline>'') =
           (\<lambda>md s. md @ comment_bullet s)"
    by (simp add: fun_eq_iff comment_bullet_def)
  show ?thesis
    unfolding EnrichedTask renderSubtask.simps Let_def b foldl_append_each
    by (cases cs) (simp_all add: subtask_heading_def subtask_details_def)
qed

lemma render_appends:
  fixes md0 md1 :: string
  shows "(\<forall>md. renderSubtasks L subs level index md = md @ renderSubtasks L subs level index [])"
    and "(\<forall>md. renderSubtask L sub level' index' md = md @ renderSubtask L sub level' index' [])"
proof (induction L subs level index md0 and L sub level' index' md1
    rule: renderSubtasks_renderSubtask.induct)
  case (1 L level index md)
  show ?case by simp
next
  case (2 L sub rest level index md)
  show ?case
  proof
    fix m
    have "renderSubtasks L (sub # rest) level index m =
        renderSubtasks L rest level (index + 1) (renderSubtask L sub level index m)"
      by simp
    also have "\<dots> = renderSubtask L sub level index m @ renderSubtasks L rest level (index + 1) []"
      using 2(2) by blast
    also have "\<dots> = m @ renderSubtask L sub level index [] @ renderSubtasks L rest level (index + 1) []"
      using 2(1) by (metis append.assoc)
    also have "\<dots> = m @ renderSubtasks L rest level (index + 1) (renderSubtask L sub level index [])"
      using 2(2) by metis
    finally show "renderSubtasks L (sub # rest) level index m =
        m @ renderSubtasks L (sub # rest) level index []"
      by simp
  qed
next
  case (3 L sub sub_stories sub_subtasks level index md)
  show ?case
  proof
    fix m
    let ?t = "EnrichedTask sub sub_stories sub_subtasks"
    let ?p = "subtask_heading level (index + 1) ?t @ subtask_details L ?t"
    show "renderSubtask L ?t level index m = m @ renderSubtask L ?t level index []"
    proof (cases "sub_subtasks = []")
      case True
      then show ?thesis by (simp add: renderSubtask_unfold)
    next
      case False
      have ih: "\<forall>md. renderSubtasks L sub_subtasks (level + 1) 0 md =
          md @ renderSubtasks L sub_subtasks (level + 1) 0 []"
        by (rule 3 [OF refl refl refl refl refl refl]) (simp add: False)
      have "renderSubtask L ?t level index m =
          renderSubtasks L sub_subtasks (level + 1) 0 (m @ ?p) @ ''\<newline>''"
        by (simp add: renderSubtask_unfold)
      also have "\<dots> = (m @ ?p) @ renderSubtasks L sub_subtasks (level + 1) 0 [] @ ''\<newline>''"
        using ih by (metis append.assoc)
      also have "\<dots> = m @ renderSubtasks L sub_subtasks (level + 1) 0 ([] @ ?p) @ ''\<newline>''"
        using ih by (metis append.assoc append_Nil)
      finally show ?thesis by (simp add: renderSubtask_unfold)
    qed
  qed
qed

lemma renderSubtasks_concat:
  "renderSubtasks L subs level index md =
     md @ concat (map (\<lambda>(i, s). renderSubtask L s level i [])
                   (zip [index..<index + length subs] subs))"
proof (induction subs arbitrary: index md)
  case Nil
  show ?case by simp
next
  case (Cons sub rest)
  have up: "[index..<index + length (sub # rest)] = index # [index + 1..<index + 1 + length rest]"
    by (simp add: upt_rec)
  have "renderSubtasks L (sub # rest) level index md =
      renderSubtasks L rest level (index + 1) (renderSubtask L sub level index md)"
    by simp
  also have "\<dots> = renderSubtask L sub level index md @
      concat (map (\<lambda>(i, s). renderSubtask L s level i [])
               (zip [index + 1..<index + 1 + length rest] rest))"
    by (rule Cons.IH)
  also have "renderSubtask L sub level index md = md @ renderSubtask L sub level index []"
    using render_appends(2) by blast
  finally show ?case unfolding up by simp
qed

lemma heading_depth_subtask_heading: "heading_depth (subtask_heading level position sub) = level + 2"
proof -
  have "takeWhile (\<lambda>c. c = CHR ''#'') (replicate n (CHR ''#'') @ CHR '' '' # r) = replicate n (CHR ''#'')"
    for n r
    by (induction n) auto
  then show ?thesis by (simp add: heading_depth_def subtask_heading_def)
qed

lemma generateMarkdown_sections:
  "generateMarkdown L t =
     document_head L t @
     ''## Description\<newline>\<newline>'' @
     (if task_notes (task_fields t) = [] then ''_No description provided._''
      else task_notes (task_fields t)) @ ''\<newline>\<newline>'' @
     (if stories t = [] then []
      else ''## Comments\<newline>\<newline>'' @ concat (map (comment_block L) (stories t))) @
     (if subtasks t = [] then []
      else ''## Subtasks\<newline>\<newline>'' @ renderSubtasks L (subtasks t) 1 0 [])"
proof -
  have b: "(\<lambda>md story.
        ((md @ ''### '' @ glyph_speaking @ '' '' @
          (case created_by story of None \<Rightarrow> ''Unknown'' | Some u \<Rightarrow> user_name u) @ '' - '' @
          toLocaleString L (created_at story) @ ''\<newline>'') @
         story_text story @ ''\<newline>\<newline>'') @ ''---\<newline>\<newline>'') =
      (\<lambda>md story. md @ comment_block L story)"
    by (simp add: fun_eq_iff comment_block_def)
  have r: "renderSubtasks L subs 1 0 md = md @ renderSubtasks L subs 1 0 []" for subs md
    using render_appends(1) by blast
  show ?thesis
    unfolding generateMarkdown_def Let_def
    unfolding b foldl_append_each
    by (subst r) (simp add: document_head_def)
qed

text \<open>
  Claim C7. A subtask rendered at nesting level \<open>level\<close> and position \<open>index\<close> (counted
  from 0) of its sibling list contributes its heading, of depth \<open>level + 2\<close>, numbered
  \<open>index + 1\<close> and carrying the completion glyph, then its details, then its children
  rendered at level \<open>level + 1\<close> from position 0, then a blank line. A sibling list is
  rendered subtask by subtask with the positions in order, and the children of the root
  are rendered at level 1. So the heading depth is \<open>L + 2\<close> at level \<open>L\<close> and grows
  strictly with the level.
\<close>

theorem subtask_heading_depth:
  "renderSubtask L sub level index md =
     md @ subtask_heading level (index + 1) sub @ subtask_details L sub @
     renderSubtasks L (subtasks sub) (level + 1) 0 [] @ ''\<newline>'' \<and>
   renderSubtasks L subs level index md =
     md @ concat (map (\<lambda>(i, s). renderSubtask L s level i [])
                   (zip [index..<index + length subs] subs)) \<and>
   heading_depth (subtask_heading level position sub) = level + 2 \<and>
   heading_depth (subtask_heading level position sub) <
     heading_depth (subtask_heading (level + 1) position' child) \<and>
   generateMarkdown L t =
     document_head L t @
     ''## Description\<newline>\<newline>'' @
     (if task_notes (task_fields t) = [] then ''_No description provided._''
      else task_notes (task_fields t)) @ ''\<newline>\<newline>'' @
     (if stories t = [] then []
      else ''## Comments\<newline>\<newline>'' @ concat (map (comment_block L) (stories t))) @
     (if subtasks t = [] then []
      else ''## Subtasks\<newline>\<newline>'' @ renderSubtasks L (subtasks t) 1 0 [])"
proof (intro conjI)
  have "renderSubtasks L (subtasks sub) (level + 1) 0
          (md @ subtask_heading level (index + 1) sub @ subtask_details L sub) =
        (md @ subtask_heading level (index + 1) sub @ subtask_details L sub) @
        renderSubtasks L (subtasks sub) (level + 1) 0 []"
    using render_appends(1) by blast
  then show "renderSubtask L sub level index md =
     md @ subtask_heading level (index + 1) sub @ subtask_details L sub @
     renderSubtasks L (subtasks sub) (level + 1) 0 [] @ ''\<newline>''"
    by (simp add: renderSubtask_unfold)
next
  show "renderSubtasks L subs level index md =
     md @ concat (map (\<lambda>(i, s). renderSubtask L s level i [])
                   (zip [index..<index + length subs] subs))"
    by (rule renderSubtasks_concat)
next
  show "heading_depth (subtask_heading level position sub) = level + 2"
    by (rule heading_depth_subtask_heading)
next
  show "heading_depth (subtask_heading level position sub) <
     heading_depth (subtask_heading (level + 1) position' child)"
    by (simp add: heading_depth_subtask_heading)
next
  show "generateMarkdown L t =
     document_head L t @
     ''## Description\<newline>\<newline>'' @
     (if task_notes (task_fields t) = [] then ''_No description provided._''
      else task_notes (task_fields t)) @ ''\<newline>\<newline>'' @
     (if stories t = [] then []
      else ''## Comments\<newline>\<newline>'' @ concat (map (comment_block L) (stories t))) @
     (if subtasks t = [] then []
      else ''## Subtasks\<newline>\<newline>'' @ renderSubtasks L (subtasks t) 1 0 [])"
    by (rule generateMarkdown_sections)
qed

text \<open>
  Claim C6. The output of \<open>generateMarkdown\<close> is the title and metadata, then the
  Description section, always: its heading and the notes as they are, or the fixed
  placeholder when the notes are empty. The Comments section follows only when the root
  has comments and the Subtasks section only when it has children: with no comments and
  no children the output ends with the Description section.
\<close>

theorem sections_omitted_when_empty:
  "generateMarkdown L t =
     document_head L t @
     ''## Description\<newline>\<newline>'' @
     (if task_notes (task_fields t) = [] then ''_No description provided._''
      else task_notes (task_fields t)) @ ''\<newline>\<newline>'' @
     (if stories t = [] then []
      else ''## Comments\<newline>\<newline>'' @ concat (map (comment_block L) (stories t))) @
     (if subtasks t = [] then []
      else ''## Subtasks\<newline>\<newline>'' @ renderSubtasks L (subtasks t) 1 0 []) \<and>
   (stories t = [] \<and> subtasks t = [] \<longrightarrow>
      generateMarkdown L t =
        document_head L t @
        ''## Description\<newline>\<newline>'' @
        (if task_notes (task_fields t) = [] then ''_No description provided._''
         else task_notes (task_fields t)) @ ''\<newline>\<newline>'')"
  by (simp add: generateMarkdown_sections)

theorem sections_omitted_when_empty_witness:
  "stories (EnrichedTask (demo_task ''13'') [] []) = [] \<and>
   subtasks (EnrichedTask (demo_task ''13'') [] []) = [] \<and>
   generateMarkdown demo_locale (EnrichedTask (demo_task ''13'') [] []) =
     ''# Task 13\<newline>\<newline>'' @
     ''**Link:** [Open in Asana](https://app.asana.com/0/0/13)\<newline>'' @
     ''**Assignee:** Unassigned | **Due:** No Date | **Status:** '' @ glyph_incomplete @
     '' Incomplete\<newline>\<newline>'' @
     ''## Description\<newline>\<newline>'' @
     ''_No description provided._\<newline>\<newline>'' \<and>
   generateMarkdown demo_locale
       (EnrichedTask ((demo_task ''13'')\<lparr>task_notes := ''Plan\<newline>B''\<rparr>) [] []) =
     ''# Task 13\<newline>\<newline>'' @
     ''**Link:** [Open in Asana](https://app.asana.com/0/0/13)\<newline>'' @
     ''**Assignee:** Unassigned | **Due:** No Date | **Status:** '' @ glyph_incomplete @
     '' Incomplete\<newline>\<newline>'' @
     ''## Description\<newline>\<newline>'' @
     ''Plan\<newline>B\<newline>\<newline>''"
proof -
  let ?a = "EnrichedTask (demo_task ''13'') [] []"
  let ?b = "EnrichedTask ((demo_task ''13'')\<lparr>task_notes := ''Plan\<newline>B''\<rparr>) [] []"
  have h: "document_head demo_locale ?a =
     ''# Task 13\<newline>\<newline>'' @
     ''**Link:** [Open in Asana](https://app.asana.com/0/0/13)\<newline>'' @
     ''**Assignee:** Unassigned | **Due:** No Date | **Status:** '' @ glyph_incomplete @
     '' Incomplete\<newline>\<newline>''"
    "document_head demo_locale ?b = document_head demo_locale ?a"
    by (simp_all add: document_head_def demo_task_def formatDate_def)
  have a: "generateMarkdown demo_locale ?a =
      document_head demo_locale ?a @ ''## Description\<newline>\<newline>'' @
      (if task_notes (task_fields ?a) = [] then ''_No description provided._''
       else task_notes (task_fields ?a)) @ ''\<newline>\<newline>''"
    by (rule sections_omitted_when_empty [THEN conjunct2, rule_format]) simp
  have b: "generateMarkdown demo_locale ?b =
      document_head demo_locale ?b @ ''## Description\<newline>\<newline>'' @
      (if task_notes (task_fields ?b) = [] then ''_No description provided._''
       else task_notes (task_fields ?b)) @ ''\<newline>\<newline>''"
    by (rule sections_omitted_when_empty [THEN conjunct2, rule_format]) simp
  show ?thesis
    unfolding a b h by (simp add: demo_task_def)
qed

theorem subtask_heading_depth_witness:
  "renderSubtasks demo_locale demo_nested 1 0 [] =
     ''### 1. '' @ glyph_completed @ '' Task 11\<newline>\<newline>'' @
     ''*Assignee: Unassigned | Due: No Date*\<newline>\<newline>'' @
     ''#### 1. '' @ glyph_incomplete @ '' Task 111\<newline>\<newline>'' @
     ''*Assignee: Unassigned | Due: No Date*\<newline>\<newline>'' @
     ''\<newline>'' @
     ''\<newline>'' @
     ''### 2. '' @ glyph_incomplete @ '' Task 13\<newline>\<newline>'' @
     ''*Assignee: Unassigned | Due: No Date*\<newline>\<newline>'' @
     ''\<newline>'' \<and>
   heading_depth (subtask_heading 1 1 (demo_nested ! 0)) = 3 \<and>
   heading_depth (subtask_heading 2 1 (EnrichedTask (demo_task ''111'') [] [])) = 4 \<and>
   heading_depth (subtask_heading 1 2 (demo_nested ! 1)) = 3"
proof -
  note t = subtask_heading_depth
  have a: "renderSubtasks demo_locale demo_nested 1 0 [] =
     ''### 1. '' @ glyph_completed @ '' Task 11\<newline>\<newline>'' @
     ''*Assignee: Unassigned | Due: No Date*\<newline>\<newline>'' @
     ''#### 1. '' @ glyph_incomplete @ '' Task 111\<newline>\<newline>'' @
     ''*Assignee: Unassigned | Due: No Date*\<newline>\<newline>'' @
     ''\<newline>'' @
     ''\<newline>'' @
     ''### 2. '' @ glyph_incomplete @ '' Task 13\<newline>\<newline>'' @
     ''*Assignee: Unassigned | Due: No Date*\<newline>\<newline>'' @
     ''\<newline>''"
    by code_simp
  have b: "heading_depth (subtask_heading 1 1 (demo_nested ! 0)) = 1 + 2"
    "heading_depth (subtask_heading 2 1 (EnrichedTask (demo_task ''111'') [] [])) = 2 + 2"
    "heading_depth (subtask_heading 1 2 (demo_nested ! 1)) = 1 + 2"
    by (rule t [THEN conjunct2, THEN conjunct2, THEN conjunct1])+
  show ?thesis using a b by simp
qed

end
